theory Spec2Isabelle
  imports
    Main
    "HOL-Library.Word"
    "HOL-Library.Char_ord"
    "HOL-Library.List_Lexorder"
    "HOL-Library.Product_Lexorder"
    "HOL-Library.Multiset"
    "HOL-Library.Sublist"
begin

section \<open>The fake Bot API server of \<open>src/telegram/fake.cpp\<close>\<close>

text \<open>
  The file embeds the test cases of \<open>fake.cpp\<close>, the matcher methods of their base
  class and the request handler. C++ exceptions are values: an operation returns an
  \<open>outcome\<close> together with the state it leaves behind, so that what was written
  before a \<open>throw\<close> stays visible. The mutex of \<open>TestCase\<close> is held for the whole of
  \<open>FakeHandler::handleRequest\<close>; the model is sequential and has no field for it.
\<close>

subsection \<open>Exceptions and outcomes\<close>

text \<open>
  \<open>CheckFailedException\<close> is the class of line 23. \<open>runtime_error\<close> is
  \<open>std::runtime_error\<close> with its message. \<open>Poco_Exception\<close> stands for every exception
  the Poco library throws (all derive from \<open>std::exception\<close>); it carries the text
  \<open>what()\<close> returns.
\<close>

datatype exn = CheckFailedException | runtime_error string | Poco_Exception string

fun what :: "exn \<Rightarrow> string" where
  "what CheckFailedException = ''std::exception''"
| "what (runtime_error m) = m"
| "what (Poco_Exception m) = m"

datatype 'a outcome = Returns 'a | Throws exn

subsection \<open>The test case and the response\<close>

text \<open>
  \<open>Fulfilled\<close> is a C++ \<open>int\<close>: a 32-bit word read signed (\<open>sint\<close>); \<open>++\<close> is
  \<open>+ 1\<close> on it.
\<close>

type_synonym int32 = "32 word"
type_synonym int64 = "64 word"

record TestCase =
  Expectations :: "string list"
  Fulfilled :: int32
  Fails :: "string list"

text \<open>
  What the code does to a \<open>HTTPServerResponse\<close>: \<open>setStatus\<close> stores the status,
  \<open>send()\<close> opens the body stream, and what is streamed into it is appended to the body.
\<close>

record HTTPServerResponse =
  getStatus :: nat
  sent :: bool
  body :: string

definition HTTP_OK :: nat where "HTTP_OK = 200"
definition HTTP_BAD_REQUEST :: nat where "HTTP_BAD_REQUEST = 400"
definition HTTP_UNAUTHORIZED :: nat where "HTTP_UNAUTHORIZED = 401"
definition HTTP_INTERNAL_SERVER_ERROR :: nat where "HTTP_INTERNAL_SERVER_ERROR = 500"

text \<open>A response as Poco hands it to a handler: status 200, nothing sent.\<close>

definition new_response :: HTTPServerResponse where
  "new_response = \<lparr>getStatus = HTTP_OK, sent = False, body = []\<rparr>"

type_synonym state = "TestCase \<times> HTTPServerResponse"
type_synonym 'a action = "state \<Rightarrow> 'a outcome \<times> state"

definition return :: "'a \<Rightarrow> 'a action" where
  "return x s = (Returns x, s)"

definition and_then :: "'a action \<Rightarrow> ('a \<Rightarrow> 'b action) \<Rightarrow> 'b action" where
  "and_then m f s = (case m s of (Returns x, s') \<Rightarrow> f x s' | (Throws e, s') \<Rightarrow> (Throws e, s'))"

text \<open>Statements in sequence: the first one that throws ends the block.\<close>

fun seq :: "unit action list \<Rightarrow> unit action" where
  "seq [] s = (Returns (), s)"
| "seq (m # ms) s = (case m s of (Returns _, s') \<Rightarrow> seq ms s' | (Throws e, s') \<Rightarrow> (Throws e, s'))"

text \<open>A library call that returns a value or throws, and leaves the state alone.\<close>

definition call :: "exn + 'a \<Rightarrow> 'a action" where
  "call r s = (case r of Inl e \<Rightarrow> (Throws e, s) | Inr x \<Rightarrow> (Returns x, s))"

definition setStatus :: "nat \<Rightarrow> unit action" where
  "setStatus st s = (case s of (t, r) \<Rightarrow> (Returns (), (t, r\<lparr>getStatus := st\<rparr>)))"

definition send :: "string \<Rightarrow> unit action" where
  "send out s = (case s of (t, r) \<Rightarrow> (Returns (), (t, r\<lparr>sent := True, body := body r @ out\<rparr>)))"

subsection \<open>The request, and the Poco calls made on it\<close>

text \<open>
  \<open>Poco::JSON\<close> is a library outside the repository. The body of a request is
  represented by what the three library steps of the \<open>parseJson\<close> lambda (lines
  159-171) make of it: either one of them throws (\<open>Malformed\<close>, with the text of
  \<open>what()\<close>), or they yield \<open>chat_id\<close>, \<open>text\<close> and the optional
  \<open>reply_to_message_id\<close>.
\<close>

datatype json_body = Malformed string | Message int64 string "int64 option"

record HTTPServerRequest =
  getURI :: string
  getMethod :: string
  header_fields :: "(string \<times> string) list"
  stream :: json_body

text \<open>
  \<open>request.get(name)\<close>: the value of the first header field of that name, compared
  without regard to ASCII case; \<open>NotFoundException\<close> when there is none.
\<close>

definition toLower :: "char \<Rightarrow> char" where
  "toLower c = (if CHR ''A'' \<le> c \<and> c \<le> CHR ''Z'' then char_of (of_char c + (32::nat)) else c)"

fun get :: "(string \<times> string) list \<Rightarrow> string \<Rightarrow> exn + string" where
  "get [] name = Inl (Poco_Exception ''Not found'')"
| "get ((k, v) # rest) name =
     (if map toLower k = map toLower name then Inr v else get rest name)"

subsection \<open>A model of \<open>Poco::URI\<close>\<close>

text \<open>
  \<open>Poco::URI\<close> is a library outside the repository as well. \<open>ExpectURI\<close> reads three
  things of a parsed URI: the host, the path and the query parameters. The model below
  follows the library's parser: an optional scheme and authority, the path up to
  \<open>?\<close> or \<open>#\<close>, the raw query up to \<open>#\<close>, the fragment; percent-escapes of
  path, fragment and parameters are decoded, and a malformed escape or port throws
  \<open>URISyntaxException\<close>.
\<close>

record URI =
  getHost :: string
  getPath :: string
  getRawQuery :: string

definition URISyntaxException :: exn where
  "URISyntaxException = Poco_Exception ''Bad URI syntax''"

definition hex_digit :: "char \<Rightarrow> nat option" where
  "hex_digit c =
     (if CHR ''0'' \<le> c \<and> c \<le> CHR ''9'' then Some (of_char c - of_char CHR ''0'')
      else if CHR ''A'' \<le> c \<and> c \<le> CHR ''F'' then Some (of_char c - of_char CHR ''A'' + 10)
      else if CHR ''a'' \<le> c \<and> c \<le> CHR ''f'' then Some (of_char c - of_char CHR ''a'' + 10)
      else None)"

fun decode :: "string \<Rightarrow> exn + string" where
  "decode [] = Inr []"
| "decode (c # cs) =
     (if c = CHR ''%''
      then (case cs of
              hi # lo # rest \<Rightarrow>
                (case (hex_digit hi, hex_digit lo) of
                   (Some h, Some l) \<Rightarrow>
                     (case decode rest of
                        Inl e \<Rightarrow> Inl e
                      | Inr d \<Rightarrow> Inr (char_of (h * 16 + l) # d))
                 | _ \<Rightarrow> Inl URISyntaxException)
            | _ \<Rightarrow> Inl URISyntaxException)
      else (case decode cs of Inl e \<Rightarrow> Inl e | Inr d \<Rightarrow> Inr (c # d)))"

definition is_digit :: "char \<Rightarrow> bool" where
  "is_digit c = (CHR ''0'' \<le> c \<and> c \<le> CHR ''9'')"

definition port_number :: "string \<Rightarrow> nat" where
  "port_number ds = foldl (\<lambda>n c. 10 * n + (of_char c - of_char CHR ''0'')) 0 ds"

text \<open>
  \<open>parseHostAndPort\<close>: an IPv6 literal in brackets or a name up to \<open>:\<close>, then an
  optional port between 1 and 65535; the host is stored in lower case.
\<close>

definition parseHostAndPort :: "string \<Rightarrow> exn + string" where
  "parseHostAndPort hp =
     (let bracket = (hp \<noteq> [] \<and> hd hp = CHR ''['');
          host = (if bracket then takeWhile (\<lambda>c. c \<noteq> CHR '']'') (tl hp)
                  else takeWhile (\<lambda>c. c \<noteq> CHR '':'') hp);
          after = (if bracket then dropWhile (\<lambda>c. c \<noteq> CHR '']'') (tl hp)
                   else dropWhile (\<lambda>c. c \<noteq> CHR '':'') hp)
      in if bracket \<and> after = [] then Inl URISyntaxException
         else
           (let after' = (if bracket then tl after else after);
                port = (case after' of [] \<Rightarrow> [] | c # ds \<Rightarrow> if c = CHR '':'' then ds else [])
            in if port \<noteq> [] \<and>
                  \<not> (list_all is_digit port \<and> 0 < port_number port \<and> port_number port < 65536)
               then Inl URISyntaxException
               else Inr (map toLower host)))"

definition delimiter :: "char \<Rightarrow> bool" where
  "delimiter c = (c = CHR ''/'' \<or> c = CHR ''?'' \<or> c = CHR ''#'')"

text \<open>\<open>parseAuthority\<close>: what follows the last \<open>@\<close> is host and port.\<close>

definition parseAuthority :: "string \<Rightarrow> exn + string" where
  "parseAuthority auth = parseHostAndPort (rev (takeWhile (\<lambda>c. c \<noteq> CHR ''@'') (rev auth)))"

text \<open>\<open>parsePathEtc\<close>, given the host found before it.\<close>

definition parsePathEtc :: "string \<Rightarrow> string \<Rightarrow> exn + URI" where
  "parsePathEtc host s =
     (let path = takeWhile (\<lambda>c. c \<noteq> CHR ''?'' \<and> c \<noteq> CHR ''#'') s;
          r1 = dropWhile (\<lambda>c. c \<noteq> CHR ''?'' \<and> c \<noteq> CHR ''#'') s;
          query = (case r1 of [] \<Rightarrow> []
                   | c # r \<Rightarrow> if c = CHR ''?'' then takeWhile (\<lambda>c. c \<noteq> CHR ''#'') r else []);
          r2 = (case r1 of [] \<Rightarrow> []
                | c # r \<Rightarrow> if c = CHR ''?'' then dropWhile (\<lambda>c. c \<noteq> CHR ''#'') r else r1);
          fragment = (case r2 of [] \<Rightarrow> [] | c # r \<Rightarrow> r)
      in case decode path of
           Inl e \<Rightarrow> Inl e
         | Inr p \<Rightarrow>
             (case decode fragment of
                Inl e \<Rightarrow> Inl e
              | Inr f \<Rightarrow> Inr \<lparr>getHost = host, getPath = p, getRawQuery = query\<rparr>))"

text \<open>
  \<open>URI::parse\<close>: a string that starts with \<open>/\<close>, \<open>.\<close>, \<open>?\<close> or \<open>#\<close> has no
  scheme and no authority; otherwise a scheme ends at \<open>:\<close>, and \<open>//\<close> after it opens
  the authority.
\<close>

definition parse_URI :: "string \<Rightarrow> exn + URI" where
  "parse_URI uri =
     (case uri of
        [] \<Rightarrow> Inr \<lparr>getHost = [], getPath = [], getRawQuery = []\<rparr>
      | c # cs \<Rightarrow>
          if c = CHR ''/'' \<or> c = CHR ''.'' \<or> c = CHR ''?'' \<or> c = CHR ''#''
          then parsePathEtc [] uri
          else
            (let r = dropWhile (\<lambda>c. c \<noteq> CHR '':'' \<and> \<not> delimiter c) uri
             in case r of
                  [] \<Rightarrow> parsePathEtc [] uri
                | d # r' \<Rightarrow>
                    if d \<noteq> CHR '':'' then parsePathEtc [] uri
                    else if r' = [] then Inl URISyntaxException
                    else if take 2 r' = ''//''
                    then (case parseAuthority (takeWhile (\<lambda>c. \<not> delimiter c) (drop 2 r')) of
                            Inl e \<Rightarrow> Inl e
                          | Inr host \<Rightarrow>
                              parsePathEtc host (dropWhile (\<lambda>c. \<not> delimiter c) (drop 2 r')))
                    else parsePathEtc [] r'))"

text \<open>
  \<open>getQueryParameters\<close>: the raw query is cut at \<open>&\<close>, each piece at its first
  \<open>=\<close>; \<open>+\<close> stands for a space, and name and value are decoded. \<open>next_parameter\<close>
  is one round of the library's loop: name, value and the rest of the query.
\<close>

definition plus_to_space :: "char \<Rightarrow> char" where
  "plus_to_space c = (if c = CHR ''+'' then CHR '' '' else c)"

definition next_parameter :: "string \<Rightarrow> string \<times> string \<times> string" where
  "next_parameter q =
     (let name = takeWhile (\<lambda>c. c \<noteq> CHR ''='' \<and> c \<noteq> CHR ''&'') q;
          r1 = dropWhile (\<lambda>c. c \<noteq> CHR ''='' \<and> c \<noteq> CHR ''&'') q;
          has_value = (r1 \<noteq> [] \<and> hd r1 = CHR ''='');
          val = (if has_value then takeWhile (\<lambda>c. c \<noteq> CHR ''&'') (tl r1) else []);
          r2 = (if has_value then dropWhile (\<lambda>c. c \<noteq> CHR ''&'') (tl r1) else r1);
          r3 = (if r2 \<noteq> [] \<and> hd r2 = CHR ''&'' then tl r2 else r2)
      in (map plus_to_space name, map plus_to_space val, r3))"

lemma next_parameter_shorter:
  "q \<noteq> [] \<Longrightarrow> next_parameter q = (n, v, r) \<Longrightarrow> length r < length q"
proof -
  assume q: "q \<noteq> []" and np: "next_parameter q = (n, v, r)"
  let ?P = "\<lambda>c. c \<noteq> CHR ''='' \<and> c \<noteq> CHR ''&''"
  let ?Q = "\<lambda>c. c \<noteq> CHR ''&''"
  have l1: "length (dropWhile ?P q) \<le> length q" by (rule length_dropWhile_le)
  show ?thesis
  proof (cases "dropWhile ?P q")
    case Nil
    with np q show ?thesis by (simp add: next_parameter_def Let_def)
  next
    case (Cons c r1')
    have l2: "length r1' < length q" using l1 Cons by simp
    have l3: "length (dropWhile ?Q r1') \<le> length r1'" by (rule length_dropWhile_le)
    have l4: "length (tl (dropWhile ?Q r1')) \<le> length r1'" using l3 by simp
    have r: "r = r1' \<or> r = dropWhile ?Q r1' \<or> r = tl (dropWhile ?Q r1')"
      using np hd_dropWhile [of ?P q] by (auto simp: next_parameter_def Let_def Cons split: if_splits)
    with l2 l3 l4 show ?thesis by auto
  qed
qed

function query_parameters :: "string \<Rightarrow> exn + (string \<times> string) list" where
  "query_parameters q =
     (if q = [] then Inr []
      else case next_parameter q of
        (name, val, rest) \<Rightarrow>
          (case decode name of
             Inl e \<Rightarrow> Inl e
           | Inr decodedName \<Rightarrow>
               (case decode val of
                  Inl e \<Rightarrow> Inl e
                | Inr decodedValue \<Rightarrow>
                    (case query_parameters rest of
                       Inl e \<Rightarrow> Inl e
                     | Inr result \<Rightarrow> Inr ((decodedName, decodedValue) # result)))))"
  by pat_completeness auto
termination
  by (relation "measure length") (auto dest: next_parameter_shorter [OF _ sym])

declare query_parameters.simps [simp del]

definition getQueryParameters :: "URI \<Rightarrow> exn + (string \<times> string) list" where
  "getQueryParameters u = query_parameters (getRawQuery u)"

subsection \<open>\<open>TestCase::Fail\<close> (lines 37-40)\<close>

definition Fail :: "string \<Rightarrow> 'a action" where
  "Fail message s = (case s of (t, r) \<Rightarrow>
     (Throws CheckFailedException, (t\<lparr>Fails := Fails t @ [message]\<rparr>, r)))"

subsection \<open>\<open>TestCase::ExpectURI\<close> (lines 42-64) and \<open>TestCase::ExpectMethod\<close> (lines 66-71)\<close>

text \<open>
  \<open>std::sort\<close> orders the pairs by the \<open><\<close> of \<open>std::pair\<close> and
  \<open>std::string\<close>: lexicographic on the pair, on the characters, and by unsigned byte
  value. That order is linear, so the sorted vector is the one \<open>sort\<close> returns.
\<close>

definition ExpectURI :: "HTTPServerRequest \<Rightarrow> string \<Rightarrow> unit action" where
  "ExpectURI request uri =
     and_then (call (parse_URI (getURI request))) (\<lambda>req_uri.
     and_then (call (getQueryParameters req_uri)) (\<lambda>req_query0.
     and_then (call (parse_URI uri)) (\<lambda>compare_uri.
     and_then (call (getQueryParameters compare_uri)) (\<lambda>compare_query0.
       let req_query = sort req_query0;
           compare_query = sort compare_query0
       in seq
         [if getHost req_uri \<noteq> getHost compare_uri
          then Fail (''Invalid Host: expected '' @ getHost compare_uri @ '', got '' @
                     getHost req_uri)
          else return (),
          if getPath req_uri \<noteq> getPath compare_uri
          then Fail (''Invalid Path: expected '' @ getPath compare_uri @ '', got '' @
                     getPath req_uri)
          else return (),
          if req_query \<noteq> compare_query
          then Fail ''Invalid Query params''
          else return ()]))))"

definition ExpectMethod :: "HTTPServerRequest \<Rightarrow> string \<Rightarrow> unit action" where
  "ExpectMethod request method =
     (if getMethod request \<noteq> method
      then Fail (''Invalid method: expected '' @ method @ '', got '' @ getMethod request)
      else return ())"

subsection \<open>\<open>TestCase::Check\<close> (lines 73-91)\<close>

definition endl :: string where
  "endl = [CHR 0x0A]"

text \<open>
  \<open>size_t i = Fulfilled\<close>: the value of the \<open>int\<close> is reduced modulo \<open>2 ^ 64\<close>, so
  that a negative counter becomes a very large index.
\<close>

definition size_t_of_int :: "int32 \<Rightarrow> nat" where
  "size_t_of_int n = nat (sint n mod 2 ^ 64)"

text \<open>The first loop, from index \<open>i\<close>; the pair is \<open>(fail, errors)\<close>.\<close>

function Check_expectations :: "string list \<Rightarrow> nat \<Rightarrow> bool \<times> string \<Rightarrow> bool \<times> string" where
  "Check_expectations es i (fail, errors) =
     (if i < length es
      then Check_expectations es (i + 1)
             (True, errors @ ''Expectation not satisfied: '' @ es ! i @ endl)
      else (fail, errors))"
  by pat_completeness auto
termination
  by (relation "measure (\<lambda>(es, i, acc). length es - i)") auto

declare Check_expectations.simps [simp del]

text \<open>The second loop, over \<open>Fails\<close>.\<close>

fun Check_fails :: "string list \<Rightarrow> bool \<times> string \<Rightarrow> bool \<times> string" where
  "Check_fails [] (fail, errors) = (fail, errors)"
| "Check_fails (error # rest) (fail, errors) =
     Check_fails rest (True, errors @ ''Error encountered: '' @ error @ endl)"

definition Check :: "TestCase \<Rightarrow> unit outcome" where
  "Check t =
     (case Check_fails (Fails t)
             (Check_expectations (Expectations t) (size_t_of_int (Fulfilled t)) (False, [])) of
        (fail, errors) \<Rightarrow> if fail then Throws (runtime_error errors) else Returns ())"

subsection \<open>The test cases (lines 94-257)\<close>

text \<open>
  \<open>fake_data.h\<close> is not among the sources: the canned bodies of \<open>FakeData\<close> are
  parameters of the model.
\<close>

record FakeData =
  GetMeJson :: string
  GetMeErrorJson :: string
  GetUpdatesFourMessagesJson :: string
  SendMessageHiJson :: string
  SendMessageReplyJson :: string
  GetUpdatesTwoMessages :: string
  GetUpdatesZeroMessages :: string
  GetupdatesOneMessage :: string

definition increment_Fulfilled :: "unit action" where
  "increment_Fulfilled s = (case s of (t, r) \<Rightarrow> (Returns (), (t\<lparr>Fulfilled := Fulfilled t + 1\<rparr>, r)))"

definition SingleGetMeTestCase :: TestCase where
  "SingleGetMeTestCase =
     \<lparr>Expectations = [''Client sends getMe request''], Fulfilled = 0, Fails = []\<rparr>"

definition SingleGetMe_HandleRequest :: "FakeData \<Rightarrow> HTTPServerRequest \<Rightarrow> unit action" where
  "SingleGetMe_HandleRequest fd request =
     seq
       [ExpectURI request ''/bot123/getMe'',
        ExpectMethod request ''GET'',
        increment_Fulfilled,
        (\<lambda>s. if Fulfilled (fst s) = 1
             then seq [setStatus HTTP_OK, send (GetMeJson fd)] s
             else Fail ''Unexpected extra request'' s)]"

definition ErrorHandlingTestCase :: TestCase where
  "ErrorHandlingTestCase =
     \<lparr>Expectations =
        [''Client sends getMe request and receives Internal Server error'',
         ''Client sends getMe request and receives error json''],
      Fulfilled = 0, Fails = []\<rparr>"

definition ErrorHandling_HandleRequest :: "FakeData \<Rightarrow> HTTPServerRequest \<Rightarrow> unit action" where
  "ErrorHandling_HandleRequest fd request =
     seq
       [ExpectURI request ''/bot123/getMe'',
        ExpectMethod request ''GET'',
        increment_Fulfilled,
        (\<lambda>s. if Fulfilled (fst s) = 1
             then seq [setStatus HTTP_INTERNAL_SERVER_ERROR, send ''Internal server error''] s
             else if Fulfilled (fst s) = 2
             then seq [setStatus HTTP_UNAUTHORIZED, send (GetMeErrorJson fd)] s
             else Fail ''Unexpected extra request'' s)]"

definition GetUpdatesAndSendMessagesTestCase :: TestCase where
  "GetUpdatesAndSendMessagesTestCase =
     \<lparr>Expectations =
        [''Client sends getUpdates request'',
         ''Client sends message '' @ [CHR 0x22] @ ''Hi!'' @ [CHR 0x22],
         ''Client sends reply '' @ [CHR 0x22] @ ''Reply'' @ [CHR 0x22],
         ''Client sends reply '' @ [CHR 0x22] @ ''Reply'' @ [CHR 0x22]],
      Fulfilled = 0, Fails = []\<rparr>"

definition checkContentType :: "HTTPServerRequest \<Rightarrow> unit action" where
  "checkContentType request =
     and_then (call (get (header_fields request) ''Content-Type'')) (\<lambda>v.
       if v \<noteq> ''application/json'' then Fail ''Content-Type header is not set''
       else return ())"

text \<open>
  \<open>parseJson\<close> yields \<open>chatId\<close>, \<open>text\<close> and \<open>replyToMessageId\<close>; the last is
  \<open>None\<close> where the code leaves \<open>hasReplyToMessageId\<close> false.
\<close>

definition parseJson :: "HTTPServerRequest \<Rightarrow> (int64 \<times> string \<times> int64 option) action" where
  "parseJson request =
     call (case stream request of
             Malformed m \<Rightarrow> Inl (Poco_Exception m)
           | Message chatId txt replyToMessageId \<Rightarrow> Inr (chatId, txt, replyToMessageId))"

definition GetUpdatesAndSendMessages_HandleRequest ::
  "FakeData \<Rightarrow> HTTPServerRequest \<Rightarrow> unit action" where
  "GetUpdatesAndSendMessages_HandleRequest fd request =
     seq
       [increment_Fulfilled,
        (\<lambda>s.
           if Fulfilled (fst s) = 1
           then seq
                  [ExpectURI request ''/bot123/getUpdates'',
                   ExpectMethod request ''GET'',
                   setStatus HTTP_OK,
                   send (GetUpdatesFourMessagesJson fd)] s
           else if Fulfilled (fst s) = 2
           then seq
                  [ExpectURI request ''/bot123/sendMessage'',
                   ExpectMethod request ''POST'',
                   checkContentType request,
                   and_then (parseJson request) (\<lambda>(chatId, txt, replyToMessageId).
                     seq
                       [if txt \<noteq> ''Hi!'' then Fail ''Invalid text in message #1'' else return (),
                        if chatId \<noteq> 104519755 then Fail ''Invalid chat_id in message #1''
                        else return (),
                        setStatus HTTP_OK,
                        send (SendMessageHiJson fd)])] s
           else if Fulfilled (fst s) = 3 \<or> Fulfilled (fst s) = 4
           then seq
                  [ExpectURI request ''/bot123/sendMessage'',
                   ExpectMethod request ''POST'',
                   checkContentType request,
                   and_then (parseJson request) (\<lambda>(chatId, txt, replyToMessageId).
                     seq
                       [if txt \<noteq> ''Reply'' then Fail ''Invalid text in reply message''
                        else return (),
                        if chatId \<noteq> 104519755 then Fail ''Invalid chat id in reply message''
                        else return (),
                        if (case replyToMessageId of None \<Rightarrow> True | Some r \<Rightarrow> r \<noteq> 2)
                        then Fail ''reply_to_message_id field is incorrect''
                        else return (),
                        setStatus HTTP_OK,
                        send (SendMessageReplyJson fd)])] s
           else Fail ''Unexpected extra request'' s)]"

definition HandleOffsetTestCase :: TestCase where
  "HandleOffsetTestCase =
     \<lparr>Expectations =
        [''Client sends request and receives 2 messages'',
         ''Client sends request with correct offset and receives 0 messages'',
         ''Client sends request with current offset and receives 1 message''],
      Fulfilled = 0, Fails = []\<rparr>"

definition HandleOffset_HandleRequest :: "FakeData \<Rightarrow> HTTPServerRequest \<Rightarrow> unit action" where
  "HandleOffset_HandleRequest fd request =
     seq
       [increment_Fulfilled,
        (\<lambda>s.
           if Fulfilled (fst s) = 1
           then seq
                  [ExpectURI request ''/bot123/getUpdates?timeout=5'',
                   ExpectMethod request ''GET'',
                   setStatus HTTP_OK,
                   send (GetUpdatesTwoMessages fd)] s
           else if Fulfilled (fst s) = 2
           then seq
                  [ExpectURI request ''/bot123/getUpdates?offset=851793508&timeout=5'',
                   ExpectMethod request ''GET'',
                   setStatus HTTP_OK,
                   send (GetUpdatesZeroMessages fd)] s
           else if Fulfilled (fst s) = 3
           then seq
                  [ExpectURI request ''/bot123/getUpdates?offset=851793508&timeout=5'',
                   ExpectMethod request ''GET'',
                   setStatus HTTP_OK,
                   send (GetupdatesOneMessage fd)] s
           else Fail ''Unexpected extra request'' s)]"

text \<open>The four classes, and the virtual call \<open>TestCase_->HandleRequest\<close>.\<close>

datatype variant =
  SingleGetMe | ErrorHandling | GetUpdatesAndSendMessages | HandleOffset

fun new_TestCase :: "variant \<Rightarrow> TestCase" where
  "new_TestCase SingleGetMe = SingleGetMeTestCase"
| "new_TestCase ErrorHandling = ErrorHandlingTestCase"
| "new_TestCase GetUpdatesAndSendMessages = GetUpdatesAndSendMessagesTestCase"
| "new_TestCase HandleOffset = HandleOffsetTestCase"

fun HandleRequest :: "FakeData \<Rightarrow> variant \<Rightarrow> HTTPServerRequest \<Rightarrow> unit action" where
  "HandleRequest fd SingleGetMe = SingleGetMe_HandleRequest fd"
| "HandleRequest fd ErrorHandling = ErrorHandling_HandleRequest fd"
| "HandleRequest fd GetUpdatesAndSendMessages = GetUpdatesAndSendMessages_HandleRequest fd"
| "HandleRequest fd HandleOffset = HandleOffset_HandleRequest fd"

subsection \<open>\<open>FakeHandler::handleRequest\<close> (lines 263-275)\<close>

text \<open>
  The second handler calls \<open>Fail\<close>, which throws, before it reaches \<open>throw;\<close>: the
  block is the sequence of the two, and \<open>seq\<close> stops at the first.
\<close>

definition rethrow :: "exn \<Rightarrow> unit action" where
  "rethrow e s = (Throws e, s)"

definition handleRequest :: "FakeData \<Rightarrow> variant \<Rightarrow> HTTPServerRequest \<Rightarrow> unit action" where
  "handleRequest fd v request s =
     (case HandleRequest fd v request s of
        (Returns x, s') \<Rightarrow> (Returns x, s')
      | (Throws CheckFailedException, s') \<Rightarrow> seq [setStatus HTTP_BAD_REQUEST, send []] s'
      | (Throws e, s') \<Rightarrow> seq [Fail (what e), rethrow e] s')"

subsection \<open>\<open>FakeServer\<close> (lines 293-335)\<close>

definition FakeServer :: "string \<Rightarrow> exn + variant" where
  "FakeServer testCase =
     (if testCase = ''Single getMe'' then Inr SingleGetMe
      else if testCase = ''getMe error handling'' then Inr ErrorHandling
      else if testCase = ''Single getUpdates and send messages'' then Inr GetUpdatesAndSendMessages
      else if testCase = ''Handle getUpdates offset'' then Inr HandleOffset
      else Inl (runtime_error (''Unknown test case name '' @ testCase)))"

text \<open>
  One exchange of the running server: the handler gets the test case and a new
  response. \<open>serve\<close> returns what the handler did, the test case it leaves and the
  response; \<open>serve_all\<close> is the test case after a list of requests, one at a time
  (the mutex), whatever each handler call returned or threw.
\<close>

definition serve ::
  "FakeData \<Rightarrow> variant \<Rightarrow> HTTPServerRequest \<Rightarrow> TestCase \<Rightarrow> unit outcome \<times> TestCase \<times> HTTPServerResponse" where
  "serve fd v request t =
     (case handleRequest fd v request (t, new_response) of (out, (t', r')) \<Rightarrow> (out, t', r'))"

fun serve_all :: "FakeData \<Rightarrow> variant \<Rightarrow> HTTPServerRequest list \<Rightarrow> TestCase \<Rightarrow> TestCase" where
  "serve_all fd v [] t = t"
| "serve_all fd v (request # requests) t =
     serve_all fd v requests (fst (snd (serve fd v request t)))"

text \<open>\<open>StopAndCheckExpectations\<close>: the server is stopped, then \<open>Check()\<close> runs.\<close>

definition StopAndCheckExpectations :: "TestCase \<Rightarrow> unit outcome" where
  "StopAndCheckExpectations t = Check t"

subsection \<open>Sample data\<close>

text \<open>Concrete fixtures and requests, for the closed instances below.\<close>

definition sample_FakeData :: FakeData where
  "sample_FakeData =
     \<lparr>GetMeJson = ''me'', GetMeErrorJson = ''error'', GetUpdatesFourMessagesJson = ''four'',
      SendMessageHiJson = ''hi'', SendMessageReplyJson = ''reply'',
      GetUpdatesTwoMessages = ''two'', GetUpdatesZeroMessages = ''zero'',
      GetupdatesOneMessage = ''one''\<rparr>"

definition http_get :: "string \<Rightarrow> HTTPServerRequest" where
  "http_get uri = \<lparr>getURI = uri, getMethod = ''GET'', header_fields = [], stream = Malformed []\<rparr>"

definition sample_message :: "json_body \<Rightarrow> HTTPServerRequest" where
  "sample_message b =
     \<lparr>getURI = ''/bot123/sendMessage'', getMethod = ''POST'',
      header_fields = [(''content-type'', ''application/json'')], stream = b\<rparr>"

text \<open>
  \<open>is_GET request path params\<close>: the request is a \<open>GET\<close> whose URI parses to no
  host, to the path \<open>path\<close> and to the query pairs \<open>params\<close> in some order.
\<close>

definition is_GET :: "HTTPServerRequest \<Rightarrow> string \<Rightarrow> (string \<times> string) list \<Rightarrow> bool" where
  "is_GET request path params =
     (getMethod request = ''GET'' \<and>
      (case parse_URI (getURI request) of
         Inl e \<Rightarrow> False
       | Inr a \<Rightarrow>
           getHost a = [] \<and> getPath a = path \<and>
           (case getQueryParameters a of Inl e \<Rightarrow> False | Inr q \<Rightarrow> mset q = mset params)))"

subsection \<open>The lines of the report of \<open>Check\<close>\<close>

definition unmet_line :: "string \<Rightarrow> string" where
  "unmet_line e = ''Expectation not satisfied: '' @ e @ endl"

definition error_line :: "string \<Rightarrow> string" where
  "error_line e = ''Error encountered: '' @ e @ endl"

subsection \<open>Verdicts\<close>

text \<open>
  Devices for the proofs. Every check of the code either passes, calls \<open>Fail\<close> with a
  message, or lets a library exception through; \<open>verdict_action\<close> is the action of
  each. \<open>answer v st b\<close> is a block of checks with verdict \<open>v\<close> followed by the
  response of status \<open>st\<close> and body \<open>b\<close>. \<open>in_script v k\<close> says that \<open>k\<close> is
  the number of a scripted step of the variant.
\<close>

datatype verdict = Pass | Failed string | Raised string

fun verdict_action :: "verdict \<Rightarrow> unit action" where
  "verdict_action Pass s = (Returns (), s)"
| "verdict_action (Failed m) s = Fail m s"
| "verdict_action (Raised m) s = (Throws (Poco_Exception m), s)"

definition answer :: "verdict \<Rightarrow> nat \<Rightarrow> string \<Rightarrow> unit action" where
  "answer v st b = seq [verdict_action v, setStatus st, send b]"

definition in_script :: "variant \<Rightarrow> int32 \<Rightarrow> bool" where
  "in_script v k = (0 < sint k \<and> sint k \<le> int (length (Expectations (new_TestCase v))))"

section \<open>Properties\<close>

subsection \<open>\<open>Check\<close> in closed form\<close>

lemma Check_expectations_eq:
  "Check_expectations es i (fail, errors) =
     (fail \<or> i < length es, errors @ concat (map unmet_line (drop i es)))"
proof (induction es i "(fail, errors)" arbitrary: fail errors rule: Check_expectations.induct)
  case (1 es i fail errors)
  show ?case
  proof (cases "i < length es")
    case True
    then have d: "drop i es = es ! i # drop (Suc i) es"
      by (simp add: Cons_nth_drop_Suc)
    have "Check_expectations es i (fail, errors) =
          Check_expectations es (i + 1)
            (True, errors @ ''Expectation not satisfied: '' @ es ! i @ endl)"
      using True by (subst Check_expectations.simps) simp
    also have "\<dots> = (True \<or> i + 1 < length es,
        (errors @ ''Expectation not satisfied: '' @ es ! i @ endl) @
          concat (map unmet_line (drop (i + 1) es)))"
      using True by (rule "1")
    finally show ?thesis using True by (simp add: d unmet_line_def)
  next
    case False
    then show ?thesis by (subst Check_expectations.simps) simp
  qed
qed

lemma Check_fails_eq:
  "Check_fails fs (fail, errors) = (fail \<or> fs \<noteq> [], errors @ concat (map error_line fs))"
  by (induction fs arbitrary: fail errors) (simp_all add: error_line_def)

lemma Check_eq:
  "Check t =
     (if size_t_of_int (Fulfilled t) < length (Expectations t) \<or> Fails t \<noteq> []
      then Throws (runtime_error
             (concat (map unmet_line (drop (size_t_of_int (Fulfilled t)) (Expectations t))) @
              concat (map error_line (Fails t))))
      else Returns ())"
  by (simp add: Check_def Check_expectations_eq Check_fails_eq)

lemma size_t_of_int_nonneg: "0 \<le> sint n \<Longrightarrow> size_t_of_int n = nat (sint n)"
proof -
  assume a: "0 \<le> sint n"
  have "sint n < 2 ^ 31" using sint_lt [of n] by simp
  also have "(2::int) ^ 31 < 2 ^ 64" by simp
  finally have b: "sint n < 2 ^ 64" .
  have "sint n mod 2 ^ 64 = sint n" using a b by (rule mod_pos_pos_trivial)
  then show ?thesis by (simp only: size_t_of_int_def)
qed

text \<open>
  C2. While the counter is not negative (it starts at 0 and is only ever incremented),
  \<open>Check\<close> throws exactly when the counter is below the number of expectations or a
  failure was recorded. What it throws is a \<open>runtime_error\<close> whose text is one
  "Expectation not satisfied" line for each expectation from the counter's index on,
  followed by one "Error encountered" line for each recorded failure; otherwise it
  returns.
\<close>

theorem Check_raises_iff_unmet_or_failed:
  "0 \<le> sint (Fulfilled t) \<Longrightarrow>
   Check t =
     (if sint (Fulfilled t) < int (length (Expectations t)) \<or> Fails t \<noteq> []
      then Throws (runtime_error
             (concat (map unmet_line (drop (nat (sint (Fulfilled t))) (Expectations t))) @
              concat (map error_line (Fails t))))
      else Returns ())"
proof -
  assume a: "0 \<le> sint (Fulfilled t)"
  have "(nat (sint (Fulfilled t)) < length (Expectations t)) =
        (sint (Fulfilled t) < int (length (Expectations t)))"
    using a by auto
  then show ?thesis
    by (simp only: Check_eq size_t_of_int_nonneg [OF a])
qed

theorem Check_raises_iff_unmet_or_failed_witness:
  "0 \<le> sint (Fulfilled \<lparr>Expectations = [''first'', ''second''], Fulfilled = 1,
                          Fails = [''Invalid Query params'']\<rparr>) \<and>
   Check \<lparr>Expectations = [''first'', ''second''], Fulfilled = 1,
           Fails = [''Invalid Query params'']\<rparr> =
     Throws (runtime_error
       (''Expectation not satisfied: second'' @ endl @
        ''Error encountered: Invalid Query params'' @ endl))"
  using Check_raises_iff_unmet_or_failed
    [of "\<lparr>Expectations = [''first'', ''second''], Fulfilled = 1,
          Fails = [''Invalid Query params'']\<rparr>"]
  by (simp add: unmet_line_def error_line_def)

subsection \<open>What the library calls can throw\<close>

lemma decode_Inl: "decode s = Inl e \<Longrightarrow> e = URISyntaxException"
proof (induction s arbitrary: e rule: decode.induct)
  case 1
  then show ?case by simp
next
  case (2 c cs)
  show ?case
  proof (cases "c = CHR ''%''")
    case True
    show ?thesis
    proof (cases cs)
      case Nil
      with True "2.prems" show ?thesis by simp
    next
      case (Cons hi cs')
      show ?thesis
      proof (cases cs')
        case Nil
        with True Cons "2.prems" show ?thesis by simp
      next
        case (Cons lo rest)
        note cs = \<open>cs = hi # cs'\<close> \<open>cs' = lo # rest\<close>
        show ?thesis
        proof (cases "hex_digit hi")
          case None
          with True cs "2.prems" show ?thesis by simp
        next
          case (Some h)
          note h = this
          show ?thesis
          proof (cases "hex_digit lo")
            case None
            with True cs h "2.prems" show ?thesis by simp
          next
            case (Some l)
            with True cs h "2.prems" obtain e' where "decode rest = Inl e'" "e = e'"
              by (auto split: sum.splits)
            with "2.IH"(1) [OF True cs(1) cs(2) refl h Some] show ?thesis by simp
          qed
        qed
      qed
    qed
  next
    case False
    with "2.prems" obtain e' where "decode cs = Inl e'" "e = e'"
      by (auto split: sum.splits)
    with "2.IH"(2) [OF False] show ?thesis by simp
  qed
qed

lemma parsePathEtc_Inl: "parsePathEtc h s = Inl e \<Longrightarrow> e = URISyntaxException"
  unfolding parsePathEtc_def Let_def
  by (simp split: sum.splits) (blast dest: decode_Inl)+

lemma parseHostAndPort_Inl: "parseHostAndPort s = Inl e \<Longrightarrow> e = URISyntaxException"
  unfolding parseHostAndPort_def Let_def
  by (simp split: if_splits)

lemma parse_URI_Inl: "parse_URI u = Inl e \<Longrightarrow> e = URISyntaxException"
  unfolding parse_URI_def parseAuthority_def Let_def
  by (simp split: list.splits if_splits sum.splits)
     (blast dest: parsePathEtc_Inl parseHostAndPort_Inl)+

lemma query_parameters_Inl: "query_parameters q = Inl e \<Longrightarrow> e = URISyntaxException"
proof (induction q arbitrary: e rule: query_parameters.induct)
  case (1 q)
  show ?case
  proof (cases "q = []")
    case True
    with "1.prems" show ?thesis by (subst (asm) query_parameters.simps) simp
  next
    case False
    obtain n v r where np: "next_parameter q = (n, v, r)" by (cases "next_parameter q") auto
    show ?thesis
    proof (cases "decode n")
      case (Inl e1)
      with "1.prems" False np decode_Inl [OF Inl] show ?thesis
        by (subst (asm) query_parameters.simps) simp
    next
      case (Inr dn)
      note dn = this
      show ?thesis
      proof (cases "decode v")
        case (Inl e2)
        with "1.prems" False np dn decode_Inl [OF Inl] show ?thesis
          by (subst (asm) query_parameters.simps) simp
      next
        case (Inr dv)
        with "1.prems" False np dn obtain e' where "query_parameters r = Inl e'" "e = e'"
          by (subst (asm) query_parameters.simps) (auto split: sum.splits)
        with "1.IH" [OF False np [symmetric] refl dn Inr] show ?thesis by simp
      qed
    qed
  qed
qed

lemma getQueryParameters_Inl: "getQueryParameters u = Inl e \<Longrightarrow> e = URISyntaxException"
  unfolding getQueryParameters_def by (rule query_parameters_Inl)

lemma if_Fail_check:
  "(if c then Fail m else return ()) = verdict_action (if c then Failed m else Pass)"
  by (rule ext) (simp add: return_def)

lemma seq_verdict_cons:
  "seq (verdict_action v # ms) = (case v of Pass \<Rightarrow> seq ms | _ \<Rightarrow> verdict_action v)"
  by (rule ext) (simp add: Fail_def split: verdict.splits prod.splits)

lemma seq_verdicts_check: "\<exists>v. seq (map verdict_action vs) = verdict_action v"
proof (induction vs)
  case Nil
  have "seq (map verdict_action []) = verdict_action Pass" by (rule ext) simp
  then show ?case by blast
next
  case (Cons a vs)
  then obtain v where "seq (map verdict_action vs) = verdict_action v" by blast
  then have "seq (map verdict_action (a # vs)) = verdict_action (case a of Pass \<Rightarrow> v | _ \<Rightarrow> a)"
    by (simp add: seq_verdict_cons split: verdict.splits)
  then show ?case by blast
qed

lemma ExpectURI_check: "\<exists>v. ExpectURI request uri = verdict_action v"
proof (cases "parse_URI (getURI request)")
  case (Inl e)
  then have "ExpectURI request uri = verdict_action (Raised ''Bad URI syntax'')"
    using parse_URI_Inl [OF Inl]
    by (intro ext) (simp add: ExpectURI_def and_then_def call_def URISyntaxException_def)
  then show ?thesis by blast
next
  case (Inr a)
  note a = this
  show ?thesis
  proof (cases "getQueryParameters a")
    case (Inl e)
    then have "ExpectURI request uri = verdict_action (Raised ''Bad URI syntax'')"
      using getQueryParameters_Inl [OF Inl] a
      by (intro ext) (simp add: ExpectURI_def and_then_def call_def URISyntaxException_def)
    then show ?thesis by blast
  next
    case (Inr q)
    note q = this
    show ?thesis
    proof (cases "parse_URI uri")
      case (Inl e)
      then have "ExpectURI request uri = verdict_action (Raised ''Bad URI syntax'')"
        using parse_URI_Inl [OF Inl] a q
        by (intro ext) (simp add: ExpectURI_def and_then_def call_def URISyntaxException_def)
      then show ?thesis by blast
    next
      case (Inr c)
      note c = this
      show ?thesis
      proof (cases "getQueryParameters c")
        case (Inl e)
        then have "ExpectURI request uri = verdict_action (Raised ''Bad URI syntax'')"
          using getQueryParameters_Inl [OF Inl] a q c
          by (intro ext) (simp add: ExpectURI_def and_then_def call_def URISyntaxException_def)
        then show ?thesis by blast
      next
        case (Inr p)
        have "ExpectURI request uri =
           seq (map verdict_action
             [if getHost a \<noteq> getHost c
              then Failed (''Invalid Host: expected '' @ getHost c @ '', got '' @ getHost a)
              else Pass,
              if getPath a \<noteq> getPath c
              then Failed (''Invalid Path: expected '' @ getPath c @ '', got '' @ getPath a)
              else Pass,
              if sort q \<noteq> sort p then Failed ''Invalid Query params'' else Pass])"
          using a q c Inr
          by (intro ext) (simp add: ExpectURI_def and_then_def call_def Let_def if_Fail_check)
        then show ?thesis using seq_verdicts_check by metis
      qed
    qed
  qed
qed

lemma ExpectMethod_check: "\<exists>v. ExpectMethod request m = verdict_action v"
  unfolding ExpectMethod_def if_Fail_check by blast

lemma get_Inl: "get hs n = Inl e \<Longrightarrow> e = Poco_Exception ''Not found''"
  by (induction hs n rule: get.induct) (simp_all split: if_splits)

lemma checkContentType_check: "\<exists>v. checkContentType request = verdict_action v"
proof (cases "get (header_fields request) ''Content-Type''")
  case (Inl e)
  have "checkContentType request = verdict_action (Raised ''Not found'')"
    using Inl get_Inl [OF Inl]
    by (intro ext) (simp add: checkContentType_def and_then_def call_def)
  then show ?thesis by blast
next
  case (Inr v)
  have "checkContentType request =
        verdict_action (if v \<noteq> ''application/json''
                        then Failed ''Content-Type header is not set'' else Pass)"
    using Inr
    by (intro ext) (simp add: checkContentType_def and_then_def call_def return_def)
  then show ?thesis by blast
qed

lemma answer_Pass:
  "answer Pass st b (t, r) =
     (Returns (), (t, r\<lparr>getStatus := st, sent := True, body := body r @ b\<rparr>))"
  by (simp add: answer_def setStatus_def send_def)

lemma answer_Failed:
  "answer (Failed m) st b (t, r) = (Throws CheckFailedException, (t\<lparr>Fails := Fails t @ [m]\<rparr>, r))"
  by (simp add: answer_def Fail_def)

lemma answer_Raised:
  "answer (Raised m) st b (t, r) = (Throws (Poco_Exception m), (t, r))"
  by (simp add: answer_def)

lemma answer_not_Pass: "v \<noteq> Pass \<Longrightarrow> verdict_action v = answer v st b"
  by (cases v; intro ext) (simp_all add: answer_def Fail_def split: prod.splits)

lemma Fail_answer: "Fail m = answer (Failed m) st b"
  by (rule ext) (simp add: answer_def Fail_def split: prod.splits)

lemma respond_answer: "seq [setStatus st, send b] = answer Pass st b"
  by (rule ext) (simp add: answer_def)

lemma seq_single: "seq [m] = m"
  by (rule ext) (simp split: prod.splits outcome.splits)

lemma seq_check_answer:
  assumes "\<exists>v. c = verdict_action v" and "\<exists>v. seq ms = answer v st b"
  shows "\<exists>v. seq (c # ms) = answer v st b"
proof -
  from assms obtain v1 v2 where c: "c = verdict_action v1" and ms: "seq ms = answer v2 st b"
    by blast
  show ?thesis
  proof (cases "v1 = Pass")
    case True
    then have "seq (c # ms) = answer v2 st b" by (simp add: c ms seq_verdict_cons)
    then show ?thesis by blast
  next
    case False
    then have "seq (c # ms) = verdict_action v1"
      by (cases v1) (simp_all add: c seq_verdict_cons)
    then show ?thesis using answer_not_Pass [OF False] by metis
  qed
qed

lemma exchange_answer:
  "\<exists>v. seq [ExpectURI request u, ExpectMethod request m, setStatus st, send b] = answer v st b"
proof -
  have "\<exists>v. seq [setStatus st, send b] = answer v st b"
    using respond_answer by blast
  then have "\<exists>v. seq [ExpectMethod request m, setStatus st, send b] = answer v st b"
    by (rule seq_check_answer [OF ExpectMethod_check])
  then show ?thesis
    by (rule seq_check_answer [OF ExpectURI_check])
qed

lemma json_answer:
  assumes "\<And>chatId txt reply. \<exists>v. f (chatId, txt, reply) = answer v st b"
  shows "\<exists>v. and_then (parseJson request) f = answer v st b"
proof (cases "stream request")
  case (Malformed m)
  have "and_then (parseJson request) f = answer (Raised m) st b"
    using Malformed by (intro ext) (simp add: and_then_def parseJson_def call_def answer_def)
  then show ?thesis by blast
next
  case (Message c t r)
  have "and_then (parseJson request) f = f (c, t, r)"
    using Message by (intro ext) (simp add: and_then_def parseJson_def call_def)
  then show ?thesis using assms by simp
qed

lemma if_Fail_check': "\<exists>v. (if c then Fail m else return ()) = verdict_action v"
  unfolding if_Fail_check by blast

lemma message_exchange_answer:
  assumes "\<And>chatId txt reply. \<exists>v. f (chatId, txt, reply) = answer v st b"
  shows "\<exists>v. seq [ExpectURI request u, ExpectMethod request m, checkContentType request,
            and_then (parseJson request) f] = answer v st b"
proof -
  have "\<exists>v. seq [and_then (parseJson request) f] = answer v st b"
    unfolding seq_single using assms by (rule json_answer)
  then have "\<exists>v. seq [checkContentType request, and_then (parseJson request) f] = answer v st b"
    by (rule seq_check_answer [OF checkContentType_check])
  then have "\<exists>v. seq [ExpectMethod request m, checkContentType request,
                and_then (parseJson request) f] = answer v st b"
    by (rule seq_check_answer [OF ExpectMethod_check])
  then show ?thesis
    by (rule seq_check_answer [OF ExpectURI_check])
qed

lemma hi_checks_answer:
  "\<exists>v. seq [if txt \<noteq> ''Hi!'' then Fail ''Invalid text in message #1'' else return (),
            if chatId \<noteq> (104519755::int64) then Fail ''Invalid chat_id in message #1''
            else return (),
            setStatus st, send b] = answer v st b"
proof -
  have "\<exists>v. seq [setStatus st, send b] = answer v st b"
    using respond_answer by blast
  then show ?thesis
    by (intro seq_check_answer [OF if_Fail_check'])
qed

lemma reply_checks_answer:
  "\<exists>v. seq [if txt \<noteq> ''Reply'' then Fail ''Invalid text in reply message'' else return (),
            if chatId \<noteq> (104519755::int64) then Fail ''Invalid chat id in reply message''
            else return (),
            if (case replyToMessageId of None \<Rightarrow> True | Some r \<Rightarrow> r \<noteq> (2::int64))
            then Fail ''reply_to_message_id field is incorrect''
            else return (),
            setStatus st, send b] = answer v st b"
proof -
  have "\<exists>v. seq [setStatus st, send b] = answer v st b"
    using respond_answer by blast
  then show ?thesis
    by (intro seq_check_answer [OF if_Fail_check'])
qed


lemma seq_increment:
  "seq [increment_Fulfilled, D] (t, r) = D (t\<lparr>Fulfilled := Fulfilled t + 1\<rparr>, r)"
  by (simp add: increment_Fulfilled_def seq_single)

lemma checks_check:
  "\<exists>v. seq [ExpectURI request u, ExpectMethod request m] = verdict_action v"
proof -
  obtain v1 v2 where "ExpectURI request u = verdict_action v1"
    and "ExpectMethod request m = verdict_action v2"
    using ExpectURI_check ExpectMethod_check by metis
  then have "seq [ExpectURI request u, ExpectMethod request m] = seq (map verdict_action [v1, v2])"
    by simp
  then show ?thesis using seq_verdicts_check by metis
qed

lemma precheck_shape:
  assumes "seq [E1, E2] = verdict_action vc"
  shows "seq [E1, E2, increment_Fulfilled, D] (t, r) =
         (case vc of Pass \<Rightarrow> D (t\<lparr>Fulfilled := Fulfilled t + 1\<rparr>, r)
          | _ \<Rightarrow> verdict_action vc (t, r))"
proof -
  have "seq [E1, E2, increment_Fulfilled, D] (t, r) =
        (case seq [E1, E2] (t, r) of
           (Returns _, s') \<Rightarrow> seq [increment_Fulfilled, D] s'
         | (Throws e, s') \<Rightarrow> (Throws e, s'))"
    by (simp split: prod.splits outcome.splits)
  then show ?thesis
    unfolding assms
    by (cases vc) (simp_all add: seq_increment Fail_def del: seq.simps)
qed

lemma HandleOffset_dispatch:
  "HandleOffset_HandleRequest fd request (t, r) =
     (if Fulfilled t + 1 = 1
      then seq [ExpectURI request ''/bot123/getUpdates?timeout=5'', ExpectMethod request ''GET'',
                setStatus HTTP_OK, send (GetUpdatesTwoMessages fd)]
             (t\<lparr>Fulfilled := Fulfilled t + 1\<rparr>, r)
      else if Fulfilled t + 1 = 2
      then seq [ExpectURI request ''/bot123/getUpdates?offset=851793508&timeout=5'',
                ExpectMethod request ''GET'',
                setStatus HTTP_OK, send (GetUpdatesZeroMessages fd)]
             (t\<lparr>Fulfilled := Fulfilled t + 1\<rparr>, r)
      else if Fulfilled t + 1 = 3
      then seq [ExpectURI request ''/bot123/getUpdates?offset=851793508&timeout=5'',
                ExpectMethod request ''GET'',
                setStatus HTTP_OK, send (GetupdatesOneMessage fd)]
             (t\<lparr>Fulfilled := Fulfilled t + 1\<rparr>, r)
      else Fail ''Unexpected extra request'' (t\<lparr>Fulfilled := Fulfilled t + 1\<rparr>, r))"
  by (simp add: HandleOffset_HandleRequest_def seq_increment del: seq.simps)

lemma HandleOffset_effect:
  "\<exists>v st b. HandleOffset_HandleRequest fd request (t, r) =
             answer v st b (t\<lparr>Fulfilled := Fulfilled t + 1\<rparr>, r) \<and>
           (v = Pass \<longrightarrow> in_script HandleOffset (Fulfilled t + 1))"
proof -
  let ?k = "Fulfilled t + 1"
  let ?s = "(t\<lparr>Fulfilled := ?k\<rparr>, r)"
  note eq = HandleOffset_dispatch [of fd request t r]
  have s: "in_script HandleOffset 1" "in_script HandleOffset 2" "in_script HandleOffset 3"
    by (simp_all add: in_script_def HandleOffsetTestCase_def)
  consider "?k = 1" | "?k \<noteq> 1" "?k = 2" | "?k \<noteq> 1" "?k \<noteq> 2" "?k = 3"
    | "?k \<noteq> 1" "?k \<noteq> 2" "?k \<noteq> 3" by blast
  then show ?thesis
  proof cases
    case 1
    then show ?thesis
      using exchange_answer [of request "''/bot123/getUpdates?timeout=5''" "''GET''" HTTP_OK
          "GetUpdatesTwoMessages fd"] s
      by (simp only: eq if_True) metis
  next
    case 2
    then show ?thesis
      using exchange_answer [of request "''/bot123/getUpdates?offset=851793508&timeout=5''"
          "''GET''" HTTP_OK "GetUpdatesZeroMessages fd"] s
      by (simp only: eq if_True if_False) metis
  next
    case 3
    then show ?thesis
      using exchange_answer [of request "''/bot123/getUpdates?offset=851793508&timeout=5''"
          "''GET''" HTTP_OK "GetupdatesOneMessage fd"] s
      by (simp only: eq if_True if_False) metis
  next
    case 4
    then have "HandleOffset_HandleRequest fd request (t, r) =
               answer (Failed ''Unexpected extra request'') 0 [] ?s"
      by (simp only: eq if_False Fail_answer [symmetric])
    then show ?thesis by blast
  qed
qed

lemma GetUpdatesAndSendMessages_effect:
  "\<exists>v st b. GetUpdatesAndSendMessages_HandleRequest fd request (t, r) =
             answer v st b (t\<lparr>Fulfilled := Fulfilled t + 1\<rparr>, r) \<and>
           (v = Pass \<longrightarrow> in_script GetUpdatesAndSendMessages (Fulfilled t + 1))"
proof -
  let ?k = "Fulfilled t + 1"
  let ?s = "(t\<lparr>Fulfilled := ?k\<rparr>, r)"
  let ?hi = "\<lambda>(chatId, txt, replyToMessageId :: int64 option).
       seq [if txt \<noteq> ''Hi!'' then Fail ''Invalid text in message #1'' else return (),
            if chatId \<noteq> (104519755::int64) then Fail ''Invalid chat_id in message #1''
            else return (),
            setStatus HTTP_OK, send (SendMessageHiJson fd)]"
  let ?reply = "\<lambda>(chatId, txt, replyToMessageId).
       seq [if txt \<noteq> ''Reply'' then Fail ''Invalid text in reply message'' else return (),
            if chatId \<noteq> (104519755::int64) then Fail ''Invalid chat id in reply message''
            else return (),
            if (case replyToMessageId of None \<Rightarrow> True | Some r \<Rightarrow> r \<noteq> (2::int64))
            then Fail ''reply_to_message_id field is incorrect''
            else return (),
            setStatus HTTP_OK, send (SendMessageReplyJson fd)]"
  have eq: "GetUpdatesAndSendMessages_HandleRequest fd request (t, r) =
     (if ?k = 1
      then seq [ExpectURI request ''/bot123/getUpdates'', ExpectMethod request ''GET'',
                setStatus HTTP_OK, send (GetUpdatesFourMessagesJson fd)] ?s
      else if ?k = 2
      then seq [ExpectURI request ''/bot123/sendMessage'', ExpectMethod request ''POST'',
                checkContentType request, and_then (parseJson request) ?hi] ?s
      else if ?k = 3 \<or> ?k = 4
      then seq [ExpectURI request ''/bot123/sendMessage'', ExpectMethod request ''POST'',
                checkContentType request, and_then (parseJson request) ?reply] ?s
      else Fail ''Unexpected extra request'' ?s)"
    by (simp add: GetUpdatesAndSendMessages_HandleRequest_def seq_increment del: seq.simps)
  have s: "in_script GetUpdatesAndSendMessages 1" "in_script GetUpdatesAndSendMessages 2"
    "in_script GetUpdatesAndSendMessages 3" "in_script GetUpdatesAndSendMessages 4"
    by (simp_all add: in_script_def GetUpdatesAndSendMessagesTestCase_def)
  have hi: "\<exists>v. seq [ExpectURI request ''/bot123/sendMessage'', ExpectMethod request ''POST'',
                checkContentType request, and_then (parseJson request) ?hi] =
              answer v HTTP_OK (SendMessageHiJson fd)"
    by (rule message_exchange_answer) (simp only: prod.case hi_checks_answer)
  have reply: "\<exists>v. seq [ExpectURI request ''/bot123/sendMessage'', ExpectMethod request ''POST'',
                checkContentType request, and_then (parseJson request) ?reply] =
              answer v HTTP_OK (SendMessageReplyJson fd)"
    by (rule message_exchange_answer) (simp only: prod.case reply_checks_answer)
  consider "?k = 1" | "?k \<noteq> 1" "?k = 2" | "?k \<noteq> 1" "?k \<noteq> 2" "?k = 3 \<or> ?k = 4"
    | "?k \<noteq> 1" "?k \<noteq> 2" "\<not> (?k = 3 \<or> ?k = 4)" by blast
  then show ?thesis
  proof cases
    case 1
    then show ?thesis
      using exchange_answer [of request "''/bot123/getUpdates''" "''GET''" HTTP_OK
          "GetUpdatesFourMessagesJson fd"] s
      by (simp only: eq if_True) metis
  next
    case 2
    then show ?thesis
      using hi s by (simp only: eq if_True if_False) metis
  next
    case 3
    then show ?thesis
      using reply s by (simp only: eq if_True if_False) metis
  next
    case 4
    then have "GetUpdatesAndSendMessages_HandleRequest fd request (t, r) =
               answer (Failed ''Unexpected extra request'') 0 [] ?s"
      by (simp only: eq if_False Fail_answer [symmetric])
    then show ?thesis by blast
  qed
qed

lemma SingleGetMe_effect:
  "\<exists>v F' st b. SingleGetMe_HandleRequest fd request (t, r) =
             answer v st b (t\<lparr>Fulfilled := F'\<rparr>, r) \<and>
           (F' = Fulfilled t \<or> F' = Fulfilled t + 1) \<and>
           (v = Pass \<longrightarrow> F' = Fulfilled t + 1 \<and> in_script SingleGetMe F')"
proof -
  let ?k = "Fulfilled t + 1"
  let ?s = "(t\<lparr>Fulfilled := ?k\<rparr>, r)"
  let ?D = "\<lambda>s. if Fulfilled (fst s) = 1
             then seq [setStatus HTTP_OK, send (GetMeJson fd)] s
             else Fail ''Unexpected extra request'' s"
  obtain vc where vc: "seq [ExpectURI request ''/bot123/getMe'', ExpectMethod request ''GET''] =
      verdict_action vc"
    using checks_check by blast
  have eq: "SingleGetMe_HandleRequest fd request (t, r) =
      (case vc of Pass \<Rightarrow> ?D ?s | _ \<Rightarrow> verdict_action vc (t, r))"
    unfolding SingleGetMe_HandleRequest_def by (rule precheck_shape [OF vc])
  have s: "in_script SingleGetMe 1"
    by (simp add: in_script_def SingleGetMeTestCase_def)
  show ?thesis
  proof (cases "vc = Pass")
    case True
    show ?thesis
    proof (cases "?k = 1")
      case k: True
      have "SingleGetMe_HandleRequest fd request (t, r) = answer Pass HTTP_OK (GetMeJson fd) ?s"
        using True k by (simp add: eq respond_answer del: seq.simps)
      then show ?thesis using s k by metis
    next
      case k: False
      have "SingleGetMe_HandleRequest fd request (t, r) =
            answer (Failed ''Unexpected extra request'') 0 [] ?s"
        using True k by (simp add: eq Fail_answer [symmetric] del: seq.simps)
      then show ?thesis by blast
    qed
  next
    case False
    have "SingleGetMe_HandleRequest fd request (t, r) = answer vc 0 [] (t\<lparr>Fulfilled := Fulfilled t\<rparr>, r)"
      using False by (cases vc) (simp_all add: eq answer_not_Pass [symmetric])
    then show ?thesis using False by blast
  qed
qed

lemma ErrorHandling_effect:
  "\<exists>v F' st b. ErrorHandling_HandleRequest fd request (t, r) =
             answer v st b (t\<lparr>Fulfilled := F'\<rparr>, r) \<and>
           (F' = Fulfilled t \<or> F' = Fulfilled t + 1) \<and>
           (v = Pass \<longrightarrow> F' = Fulfilled t + 1 \<and> in_script ErrorHandling F')"
proof -
  let ?k = "Fulfilled t + 1"
  let ?s = "(t\<lparr>Fulfilled := ?k\<rparr>, r)"
  let ?D = "\<lambda>s. if Fulfilled (fst s) = 1
             then seq [setStatus HTTP_INTERNAL_SERVER_ERROR, send ''Internal server error''] s
             else if Fulfilled (fst s) = 2
             then seq [setStatus HTTP_UNAUTHORIZED, send (GetMeErrorJson fd)] s
             else Fail ''Unexpected extra request'' s"
  obtain vc where vc: "seq [ExpectURI request ''/bot123/getMe'', ExpectMethod request ''GET''] =
      verdict_action vc"
    using checks_check by blast
  have eq: "ErrorHandling_HandleRequest fd request (t, r) =
      (case vc of Pass \<Rightarrow> ?D ?s | _ \<Rightarrow> verdict_action vc (t, r))"
    unfolding ErrorHandling_HandleRequest_def by (rule precheck_shape [OF vc])
  have s: "in_script ErrorHandling 1" "in_script ErrorHandling 2"
    by (simp_all add: in_script_def ErrorHandlingTestCase_def)
  show ?thesis
  proof (cases "vc = Pass")
    case True
    consider "?k = 1" | "?k \<noteq> 1" "?k = 2" | "?k \<noteq> 1" "?k \<noteq> 2" by blast
    then show ?thesis
    proof cases
      case 1
      have "ErrorHandling_HandleRequest fd request (t, r) =
            answer Pass HTTP_INTERNAL_SERVER_ERROR ''Internal server error'' ?s"
        using True 1 by (simp add: eq respond_answer del: seq.simps)
      then show ?thesis using s 1 by metis
    next
      case 2
      have "ErrorHandling_HandleRequest fd request (t, r) =
            answer Pass HTTP_UNAUTHORIZED (GetMeErrorJson fd) ?s"
        using True 2 by (simp add: eq respond_answer del: seq.simps)
      then show ?thesis using s 2 by metis
    next
      case 3
      have "ErrorHandling_HandleRequest fd request (t, r) =
            answer (Failed ''Unexpected extra request'') 0 [] ?s"
        using True 3 by (simp add: eq Fail_answer [symmetric] del: seq.simps)
      then show ?thesis by blast
    qed
  next
    case False
    have "ErrorHandling_HandleRequest fd request (t, r) = answer vc 0 [] (t\<lparr>Fulfilled := Fulfilled t\<rparr>, r)"
      using False by (cases vc) (simp_all add: eq answer_not_Pass [symmetric])
    then show ?thesis using False by blast
  qed
qed

lemma HandleRequest_effect:
  "\<exists>v F' st b. HandleRequest fd var request (t, r) =
             answer v st b (t\<lparr>Fulfilled := F'\<rparr>, r) \<and>
           (F' = Fulfilled t \<or> F' = Fulfilled t + 1) \<and>
           (v = Pass \<longrightarrow> F' = Fulfilled t + 1 \<and> in_script var F')"
proof (cases var)
  case SingleGetMe
  then show ?thesis using SingleGetMe_effect [of fd request t r] by simp
next
  case ErrorHandling
  then show ?thesis using ErrorHandling_effect [of fd request t r] by simp
next
  case GetUpdatesAndSendMessages
  then show ?thesis using GetUpdatesAndSendMessages_effect [of fd request t r] by (simp only: HandleRequest.simps) blast
next
  case HandleOffset
  then show ?thesis using HandleOffset_effect [of fd request t r] by (simp only: HandleRequest.simps) blast
qed

subsection \<open>The request handler\<close>

lemma handleRequest_effect:
  "\<exists>v F' st b.
     (F' = Fulfilled t \<or> F' = Fulfilled t + 1) \<and>
     (v = Pass \<longrightarrow> F' = Fulfilled t + 1 \<and> in_script var F') \<and>
     HandleRequest fd var request (t, r) = answer v st b (t\<lparr>Fulfilled := F'\<rparr>, r) \<and>
     handleRequest fd var request (t, r) =
       (case v of
          Pass \<Rightarrow>
            (Returns (), (t\<lparr>Fulfilled := F'\<rparr>,
                          r\<lparr>getStatus := st, sent := True, body := body r @ b\<rparr>))
        | Failed m \<Rightarrow>
            (Returns (), (t\<lparr>Fulfilled := F', Fails := Fails t @ [m]\<rparr>,
                          r\<lparr>getStatus := HTTP_BAD_REQUEST, sent := True\<rparr>))
        | Raised m \<Rightarrow>
            (Throws CheckFailedException, (t\<lparr>Fulfilled := F', Fails := Fails t @ [m]\<rparr>, r)))"
proof -
  obtain v F' st b where F: "F' = Fulfilled t \<or> F' = Fulfilled t + 1"
    and P: "v = Pass \<longrightarrow> F' = Fulfilled t + 1 \<and> in_script var F'"
    and H: "HandleRequest fd var request (t, r) = answer v st b (t\<lparr>Fulfilled := F'\<rparr>, r)"
    using HandleRequest_effect [of fd var request t r] by blast
  have "handleRequest fd var request (t, r) =
       (case v of
          Pass \<Rightarrow>
            (Returns (), (t\<lparr>Fulfilled := F'\<rparr>,
                          r\<lparr>getStatus := st, sent := True, body := body r @ b\<rparr>))
        | Failed m \<Rightarrow>
            (Returns (), (t\<lparr>Fulfilled := F', Fails := Fails t @ [m]\<rparr>,
                          r\<lparr>getStatus := HTTP_BAD_REQUEST, sent := True\<rparr>))
        | Raised m \<Rightarrow>
            (Throws CheckFailedException, (t\<lparr>Fulfilled := F', Fails := Fails t @ [m]\<rparr>, r)))"
    unfolding handleRequest_def H
    by (cases v)
       (simp_all add: answer_Pass answer_Failed answer_Raised setStatus_def send_def Fail_def)
  with F P H show ?thesis by blast
qed

text \<open>
  C3. When \<open>HandleRequest\<close> ends in the exception that \<open>Fail\<close> throws, one message was
  appended to \<open>Fails\<close>, and the handler returns normally (nothing propagates) with
  status 400 and an empty body; the test case is as \<open>HandleRequest\<close> left it.
\<close>

theorem validation_failure_answered_400:
  "HandleRequest fd var request (t, new_response) = (Throws CheckFailedException, s') \<Longrightarrow>
   \<exists>m. Fails (fst s') = Fails t @ [m] \<and>
       serve fd var request t =
         (Returns (), fst s', \<lparr>getStatus = HTTP_BAD_REQUEST, sent = True, body = []\<rparr>)"
proof -
  assume a: "HandleRequest fd var request (t, new_response) = (Throws CheckFailedException, s')"
  obtain v F' st b where
    H: "HandleRequest fd var request (t, new_response) =
          answer v st b (t\<lparr>Fulfilled := F'\<rparr>, new_response)"
    and h: "handleRequest fd var request (t, new_response) =
       (case v of
          Pass \<Rightarrow>
            (Returns (), (t\<lparr>Fulfilled := F'\<rparr>,
                          new_response\<lparr>getStatus := st, sent := True, body := body new_response @ b\<rparr>))
        | Failed m \<Rightarrow>
            (Returns (), (t\<lparr>Fulfilled := F', Fails := Fails t @ [m]\<rparr>,
                          new_response\<lparr>getStatus := HTTP_BAD_REQUEST, sent := True\<rparr>))
        | Raised m \<Rightarrow>
            (Throws CheckFailedException, (t\<lparr>Fulfilled := F', Fails := Fails t @ [m]\<rparr>, new_response)))"
    using handleRequest_effect [of t var fd request new_response] by blast
  show ?thesis
  proof (cases v)
    case Pass
    with a H show ?thesis by (simp add: answer_Pass)
  next
    case (Failed m)
    with a H have s': "s' = (t\<lparr>Fulfilled := F', Fails := Fails t @ [m]\<rparr>, new_response)"
      by (simp add: answer_Failed)
    show ?thesis
      using h Failed by (simp add: s' serve_def new_response_def)
  next
    case (Raised m)
    with a H show ?thesis by (simp add: answer_Raised)
  qed
qed



theorem validation_failure_answered_400_witness:
  "HandleRequest sample_FakeData SingleGetMe (http_get ''/bot123/getUpdates'')
     (SingleGetMeTestCase, new_response) =
     (Throws CheckFailedException,
      (SingleGetMeTestCase
         \<lparr>Fails := [''Invalid Path: expected /bot123/getMe, got /bot123/getUpdates'']\<rparr>,
       new_response)) \<and>
   serve sample_FakeData SingleGetMe (http_get ''/bot123/getUpdates'') SingleGetMeTestCase =
     (Returns (),
      SingleGetMeTestCase
        \<lparr>Fails := [''Invalid Path: expected /bot123/getMe, got /bot123/getUpdates'']\<rparr>,
      \<lparr>getStatus = HTTP_BAD_REQUEST, sent = True, body = []\<rparr>)"
proof -
  have h: "HandleRequest sample_FakeData SingleGetMe (http_get ''/bot123/getUpdates'')
     (SingleGetMeTestCase, new_response) =
     (Throws CheckFailedException,
      (SingleGetMeTestCase
         \<lparr>Fails := [''Invalid Path: expected /bot123/getMe, got /bot123/getUpdates'']\<rparr>,
       new_response))"
    by code_simp
  from validation_failure_answered_400 [OF h] h show ?thesis by simp
qed

text \<open>
  C6. When \<open>HandleRequest\<close> ends in any other exception (a library exception, such as
  the JSON parser's), it recorded nothing itself; the handler appends the text of
  \<open>what()\<close> to \<open>Fails\<close> and an exception leaves the handler. The response is left as
  it was handed in: status 400 is not set and nothing is sent. The exception that
  leaves is the \<open>CheckFailedException\<close> that \<open>Fail\<close> throws inside the \<open>catch\<close>
  block, before \<open>throw;\<close> is reached.
\<close>

theorem unexpected_failure_recorded_and_propagated:
  "HandleRequest fd var request (t, new_response) = (Throws e, s') \<Longrightarrow>
   e \<noteq> CheckFailedException \<Longrightarrow>
   Fails (fst s') = Fails t \<and>
   serve fd var request t =
     (Throws CheckFailedException, (fst s')\<lparr>Fails := Fails t @ [what e]\<rparr>, new_response)"
proof -
  assume a: "HandleRequest fd var request (t, new_response) = (Throws e, s')"
    and e: "e \<noteq> CheckFailedException"
  obtain v F' st b where
    H: "HandleRequest fd var request (t, new_response) =
          answer v st b (t\<lparr>Fulfilled := F'\<rparr>, new_response)"
    using handleRequest_effect [of t var fd request new_response] by blast
  show ?thesis
  proof (cases v)
    case Pass
    with a H show ?thesis by (simp add: answer_Pass)
  next
    case (Failed m)
    with a H e show ?thesis by (simp add: answer_Failed)
  next
    case (Raised m)
    with a H have s': "s' = (t\<lparr>Fulfilled := F'\<rparr>, new_response)" and m: "e = Poco_Exception m"
      by (simp_all add: answer_Raised)
    show ?thesis
      unfolding serve_def handleRequest_def a
      by (simp add: s' m Fail_def)
  qed
qed

theorem unexpected_failure_recorded_and_propagated_witness:
  "HandleRequest sample_FakeData GetUpdatesAndSendMessages
     (sample_message (Malformed ''JSON Exception''))
     (GetUpdatesAndSendMessagesTestCase\<lparr>Fulfilled := 1\<rparr>, new_response) =
     (Throws (Poco_Exception ''JSON Exception''),
      (GetUpdatesAndSendMessagesTestCase\<lparr>Fulfilled := 2\<rparr>, new_response)) \<and>
   Poco_Exception ''JSON Exception'' \<noteq> CheckFailedException \<and>
   serve sample_FakeData GetUpdatesAndSendMessages
     (sample_message (Malformed ''JSON Exception''))
     (GetUpdatesAndSendMessagesTestCase\<lparr>Fulfilled := 1\<rparr>) =
     (Throws CheckFailedException,
      GetUpdatesAndSendMessagesTestCase\<lparr>Fulfilled := 2, Fails := [''JSON Exception'']\<rparr>,
      new_response)"
proof -
  have h: "HandleRequest sample_FakeData GetUpdatesAndSendMessages
     (sample_message (Malformed ''JSON Exception''))
     (GetUpdatesAndSendMessagesTestCase\<lparr>Fulfilled := 1\<rparr>, new_response) =
     (Throws (Poco_Exception ''JSON Exception''),
      (GetUpdatesAndSendMessagesTestCase\<lparr>Fulfilled := 2\<rparr>, new_response))"
    by code_simp
  have e: "Poco_Exception ''JSON Exception'' \<noteq> CheckFailedException" by simp
  from unexpected_failure_recorded_and_propagated [OF h e] h e show ?thesis
    by (simp add: GetUpdatesAndSendMessagesTestCase_def)
qed

subsection \<open>The failure list and the counter over a run\<close>

lemma serve_effect:
  "\<exists>v F' r'.
     (v = Pass \<longrightarrow> in_script var F') \<and>
     snd (serve fd var request t) =
       (t\<lparr>Fulfilled := F', Fails := Fails t @ (case v of Pass \<Rightarrow> [] | Failed m \<Rightarrow> [m] | Raised m \<Rightarrow> [m])\<rparr>, r')"
proof -
  obtain v F' st b where
    P: "v = Pass \<longrightarrow> F' = Fulfilled t + 1 \<and> in_script var F'"
    and h: "handleRequest fd var request (t, new_response) =
       (case v of
          Pass \<Rightarrow>
            (Returns (), (t\<lparr>Fulfilled := F'\<rparr>,
                          new_response\<lparr>getStatus := st, sent := True, body := body new_response @ b\<rparr>))
        | Failed m \<Rightarrow>
            (Returns (), (t\<lparr>Fulfilled := F', Fails := Fails t @ [m]\<rparr>,
                          new_response\<lparr>getStatus := HTTP_BAD_REQUEST, sent := True\<rparr>))
        | Raised m \<Rightarrow>
            (Throws CheckFailedException, (t\<lparr>Fulfilled := F', Fails := Fails t @ [m]\<rparr>, new_response)))"
    using handleRequest_effect [of t var fd request new_response] by blast
  show ?thesis
  proof (cases v)
    case Pass
    then have "snd (serve fd var request t) =
        (t\<lparr>Fulfilled := F', Fails := Fails t @ (case v of Pass \<Rightarrow> [] | Failed m \<Rightarrow> [m] | Raised m \<Rightarrow> [m])\<rparr>,
         new_response\<lparr>getStatus := st, sent := True, body := body new_response @ b\<rparr>)"
      by (simp add: serve_def h)
    with P show ?thesis by blast
  next
    case (Failed m)
    then have "snd (serve fd var request t) =
        (t\<lparr>Fulfilled := F', Fails := Fails t @ (case v of Pass \<Rightarrow> [] | Failed m \<Rightarrow> [m] | Raised m \<Rightarrow> [m])\<rparr>,
         new_response\<lparr>getStatus := HTTP_BAD_REQUEST, sent := True\<rparr>)"
      by (simp add: serve_def h)
    with P show ?thesis by blast
  next
    case (Raised m)
    then have "snd (serve fd var request t) =
        (t\<lparr>Fulfilled := F', Fails := Fails t @ (case v of Pass \<Rightarrow> [] | Failed m \<Rightarrow> [m] | Raised m \<Rightarrow> [m])\<rparr>,
         new_response)"
      by (simp add: serve_def h)
    with P show ?thesis by blast
  qed
qed

lemma serve_Expectations: "Expectations (fst (snd (serve fd var request t))) = Expectations t"
  using serve_effect [of var fd request t] by auto

lemma serve_Fails_prefix: "prefix (Fails t) (Fails (fst (snd (serve fd var request t))))"
  using serve_effect [of var fd request t] by auto

lemma serve_in_script:
  "Fails (fst (snd (serve fd var request t))) = [] \<Longrightarrow>
   in_script var (Fulfilled (fst (snd (serve fd var request t))))"
proof -
  assume a: "Fails (fst (snd (serve fd var request t))) = []"
  obtain v F' r' where P: "v = Pass \<longrightarrow> in_script var F'"
    and s: "snd (serve fd var request t) =
       (t\<lparr>Fulfilled := F', Fails := Fails t @ (case v of Pass \<Rightarrow> [] | Failed m \<Rightarrow> [m] | Raised m \<Rightarrow> [m])\<rparr>, r')"
    using serve_effect [of var fd request t] by blast
  from a s have "v = Pass" by (cases v) simp_all
  with P s show ?thesis by simp
qed

lemma serve_all_Expectations: "Expectations (serve_all fd var requests t) = Expectations t"
  by (induction requests arbitrary: t) (simp_all add: serve_Expectations)

lemma serve_all_Fails_prefix: "prefix (Fails t) (Fails (serve_all fd var requests t))"
proof (induction requests arbitrary: t)
  case Nil
  show ?case by simp
next
  case (Cons request requests)
  have "prefix (Fails t) (Fails (fst (snd (serve fd var request t))))"
    by (rule serve_Fails_prefix)
  also have "prefix \<dots> (Fails (serve_all fd var requests (fst (snd (serve fd var request t)))))"
    by (rule Cons.IH)
  finally show ?case by simp
qed

lemma serve_all_in_script:
  "requests \<noteq> [] \<Longrightarrow> Fails (serve_all fd var requests t) = [] \<Longrightarrow>
   in_script var (Fulfilled (serve_all fd var requests t))"
proof (induction requests arbitrary: t)
  case Nil
  then show ?case by simp
next
  case (Cons request requests)
  show ?case
  proof (cases "requests = []")
    case True
    with Cons.prems show ?thesis by (simp add: serve_in_script)
  next
    case False
    with Cons.prems Cons.IH [OF False] show ?thesis by simp
  qed
qed

lemma HandleRequest_Fails_prefix:
  "prefix (Fails t) (Fails (fst (snd (HandleRequest fd var request (t, r)))))"
proof -
  obtain v F' st b where
    H: "HandleRequest fd var request (t, r) = answer v st b (t\<lparr>Fulfilled := F'\<rparr>, r)"
    using HandleRequest_effect [of fd var request t r] by blast
  show ?thesis unfolding H
    by (cases v) (simp_all add: answer_Pass answer_Failed answer_Raised)
qed

text \<open>
  C10. \<open>Fail\<close> appends exactly its message and throws. Neither \<open>HandleRequest\<close> of any
  variant, nor the handler, nor a whole run of requests removes an entry: the old list
  is a prefix of the new one (\<open>Check\<close> is a function of the test case and changes
  nothing). So once a failure is recorded, \<open>Check\<close> throws after any further requests.
\<close>

theorem Fails_only_grows:
  "Fail message (t, r) = (Throws CheckFailedException, (t\<lparr>Fails := Fails t @ [message]\<rparr>, r)) \<and>
   prefix (Fails t) (Fails (fst (snd (HandleRequest fd var request (t, r))))) \<and>
   prefix (Fails t) (Fails (fst (snd (serve fd var request t)))) \<and>
   prefix (Fails t) (Fails (serve_all fd var requests t)) \<and>
   (Fails t \<noteq> [] \<longrightarrow> (\<exists>report. Check (serve_all fd var requests t) = Throws (runtime_error report)))"
proof -
  have "Fails t \<noteq> [] \<Longrightarrow> Fails (serve_all fd var requests t) \<noteq> []"
    using serve_all_Fails_prefix [of t fd var requests] by auto
  then have "Fails t \<noteq> [] \<longrightarrow> (\<exists>report. Check (serve_all fd var requests t) = Throws (runtime_error report))"
    by (simp add: Check_eq)
  then show ?thesis
    using HandleRequest_Fails_prefix serve_Fails_prefix serve_all_Fails_prefix
    by (simp add: Fail_def)
qed

theorem Fails_only_grows_witness:
  "Fails (SingleGetMeTestCase\<lparr>Fails := [''Invalid Query params'']\<rparr>) \<noteq> [] \<and>
   prefix (Fails (SingleGetMeTestCase\<lparr>Fails := [''Invalid Query params'']\<rparr>))
     (Fails (serve_all sample_FakeData SingleGetMe [http_get ''/bot123/getMe'']
        (SingleGetMeTestCase\<lparr>Fails := [''Invalid Query params'']\<rparr>))) \<and>
   (\<exists>report. Check (serve_all sample_FakeData SingleGetMe [http_get ''/bot123/getMe'']
        (SingleGetMeTestCase\<lparr>Fails := [''Invalid Query params'']\<rparr>)) =
      Throws (runtime_error report))"
proof -
  have n: "Fails (SingleGetMeTestCase\<lparr>Fails := [''Invalid Query params'']\<rparr>) \<noteq> []"
    by simp
  from n Fails_only_grows
    [of "''Invalid Query params''" "SingleGetMeTestCase\<lparr>Fails := [''Invalid Query params'']\<rparr>"
        new_response sample_FakeData SingleGetMe "http_get ''/bot123/getMe''"
        "[http_get ''/bot123/getMe'']"]
  show ?thesis by blast
qed

lemma new_TestCase_Check: "Check (new_TestCase var) \<noteq> Returns ()"
  by (cases var)
     (simp_all add: Check_eq size_t_of_int_def SingleGetMeTestCase_def ErrorHandlingTestCase_def
        GetUpdatesAndSendMessagesTestCase_def HandleOffsetTestCase_def)

text \<open>
  C5. For each of the four variants and every list of requests handled from the new
  test case on: if \<open>Check\<close> returns, the counter equals the number of expectations.
\<close>

theorem Check_passes_only_when_all_fulfilled:
  "Check (serve_all fd var requests (new_TestCase var)) = Returns () \<Longrightarrow>
   sint (Fulfilled (serve_all fd var requests (new_TestCase var))) =
     int (length (Expectations (serve_all fd var requests (new_TestCase var))))"
proof -
  let ?t = "serve_all fd var requests (new_TestCase var)"
  assume a: "Check ?t = Returns ()"
  have ne: "requests \<noteq> []" using a new_TestCase_Check [of var] by auto
  have f: "Fails ?t = []" and n: "\<not> size_t_of_int (Fulfilled ?t) < length (Expectations ?t)"
    using a by (simp_all add: Check_eq split: if_splits)
  have s: "in_script var (Fulfilled ?t)" using ne f by (rule serve_all_in_script)
  then have pos: "0 \<le> sint (Fulfilled ?t)"
    and le: "sint (Fulfilled ?t) \<le> int (length (Expectations ?t))"
    by (simp_all add: in_script_def serve_all_Expectations)
  from n have "int (length (Expectations ?t)) \<le> sint (Fulfilled ?t)"
    using pos by (simp add: size_t_of_int_nonneg)
  with le show ?thesis by simp
qed

theorem Check_passes_only_when_all_fulfilled_witness:
  "Check (serve_all sample_FakeData HandleOffset
      [http_get ''/bot123/getUpdates?timeout=5'',
       http_get ''/bot123/getUpdates?timeout=5&offset=851793508'',
       http_get ''/bot123/getUpdates?offset=851793508&timeout=5'']
      (new_TestCase HandleOffset)) = Returns () \<and>
   sint (Fulfilled (serve_all sample_FakeData HandleOffset
      [http_get ''/bot123/getUpdates?timeout=5'',
       http_get ''/bot123/getUpdates?timeout=5&offset=851793508'',
       http_get ''/bot123/getUpdates?offset=851793508&timeout=5'']
      (new_TestCase HandleOffset))) =
   int (length (Expectations (serve_all sample_FakeData HandleOffset
      [http_get ''/bot123/getUpdates?timeout=5'',
       http_get ''/bot123/getUpdates?timeout=5&offset=851793508'',
       http_get ''/bot123/getUpdates?offset=851793508&timeout=5'']
      (new_TestCase HandleOffset))))"
proof -
  have h: "Check (serve_all sample_FakeData HandleOffset
      [http_get ''/bot123/getUpdates?timeout=5'',
       http_get ''/bot123/getUpdates?timeout=5&offset=851793508'',
       http_get ''/bot123/getUpdates?offset=851793508&timeout=5'']
      (new_TestCase HandleOffset)) = Returns ()"
    by code_simp
  from Check_passes_only_when_all_fulfilled [OF h] h show ?thesis by (rule conjI [rotated])
qed

subsection \<open>When the counter advances\<close>

lemma answer_Fulfilled: "Fulfilled (fst (snd (answer v st b (t, r)))) = Fulfilled t"
  by (cases v) (simp_all add: answer_Pass answer_Failed answer_Raised)

lemma verdict_action_Fulfilled: "Fulfilled (fst (snd (verdict_action v (t, r)))) = Fulfilled t"
  by (cases v) (simp_all add: Fail_def)

lemma verdict_action_Returns: "(fst (verdict_action v (t, r)) = Returns ()) = (v = Pass)"
  by (cases v) (simp_all add: Fail_def)

lemma precheck_counter:
  assumes D: "\<And>t'. Fulfilled (fst (snd (D (t', r)))) = Fulfilled t'"
  shows "Fulfilled (fst (snd (seq [ExpectURI request u, ExpectMethod request m,
                                   increment_Fulfilled, D] (t, r)))) =
         (if fst (seq [ExpectURI request u, ExpectMethod request m] (t, r)) = Returns ()
          then Fulfilled t + 1 else Fulfilled t)"
proof -
  obtain vc where vc: "seq [ExpectURI request u, ExpectMethod request m] = verdict_action vc"
    using checks_check by blast
  have eq: "seq [ExpectURI request u, ExpectMethod request m, increment_Fulfilled, D] (t, r) =
      (case vc of Pass \<Rightarrow> D (t\<lparr>Fulfilled := Fulfilled t + 1\<rparr>, r) | _ \<Rightarrow> verdict_action vc (t, r))"
    by (rule precheck_shape [OF vc])
  show ?thesis
    unfolding eq vc verdict_action_Returns
    by (cases vc) (simp_all add: D verdict_action_Fulfilled del: verdict_action.simps)
qed

text \<open>
  C1, as the code has it. \<open>GetUpdatesAndSendMessagesTestCase\<close> and
  \<open>HandleOffsetTestCase\<close> increment the counter first: it advances by exactly one on every
  request, whatever the checks that follow do. \<open>SingleGetMeTestCase\<close> and
  \<open>ErrorHandlingTestCase\<close> check URI and method first: the counter advances by exactly
  one when both checks pass, and stays as it was when one of them fails or throws.
\<close>

theorem counter_advances_per_variant:
  "Fulfilled (fst (snd (HandleRequest fd GetUpdatesAndSendMessages request (t, r)))) =
     Fulfilled t + 1 \<and>
   Fulfilled (fst (snd (HandleRequest fd HandleOffset request (t, r)))) = Fulfilled t + 1 \<and>
   Fulfilled (fst (snd (HandleRequest fd SingleGetMe request (t, r)))) =
     (if fst (seq [ExpectURI request ''/bot123/getMe'', ExpectMethod request ''GET''] (t, r)) =
           Returns ()
      then Fulfilled t + 1 else Fulfilled t) \<and>
   Fulfilled (fst (snd (HandleRequest fd ErrorHandling request (t, r)))) =
     (if fst (seq [ExpectURI request ''/bot123/getMe'', ExpectMethod request ''GET''] (t, r)) =
           Returns ()
      then Fulfilled t + 1 else Fulfilled t)"
proof -
  have a: "Fulfilled (fst (snd (HandleRequest fd GetUpdatesAndSendMessages request (t, r)))) =
     Fulfilled t + 1"
    using GetUpdatesAndSendMessages_effect [of fd request t r]
    by (auto simp: answer_Fulfilled)
  have b: "Fulfilled (fst (snd (HandleRequest fd HandleOffset request (t, r)))) = Fulfilled t + 1"
    using HandleOffset_effect [of fd request t r]
    by (auto simp: answer_Fulfilled)
  have c: "Fulfilled (fst (snd (HandleRequest fd SingleGetMe request (t, r)))) =
     (if fst (seq [ExpectURI request ''/bot123/getMe'', ExpectMethod request ''GET''] (t, r)) =
           Returns ()
      then Fulfilled t + 1 else Fulfilled t)"
    unfolding HandleRequest.simps SingleGetMe_HandleRequest_def
    by (rule precheck_counter) (simp add: setStatus_def send_def Fail_def)
  have d: "Fulfilled (fst (snd (HandleRequest fd ErrorHandling request (t, r)))) =
     (if fst (seq [ExpectURI request ''/bot123/getMe'', ExpectMethod request ''GET''] (t, r)) =
           Returns ()
      then Fulfilled t + 1 else Fulfilled t)"
    unfolding HandleRequest.simps ErrorHandling_HandleRequest_def
    by (rule precheck_counter) (simp add: setStatus_def send_def Fail_def)
  from a b c d show ?thesis by (intro conjI)
qed

theorem counter_advances_per_variant_witness:
  "fst (HandleRequest sample_FakeData HandleOffset
      (http_get ''/bot123/getMe'') (HandleOffsetTestCase, new_response)) =
     Throws CheckFailedException \<and>
   Fulfilled (fst (snd (HandleRequest sample_FakeData HandleOffset
      (http_get ''/bot123/getMe'') (HandleOffsetTestCase, new_response)))) = 1 \<and>
   fst (seq [ExpectURI (http_get ''/bot123/getMe'') ''/bot123/getMe'',
             ExpectMethod (http_get ''/bot123/getMe'') ''GET'']
          (SingleGetMeTestCase, new_response)) = Returns () \<and>
   Fulfilled (fst (snd (HandleRequest sample_FakeData SingleGetMe
      (http_get ''/bot123/getMe'') (SingleGetMeTestCase, new_response)))) = 1"
proof -
  have e: "fst (HandleRequest sample_FakeData HandleOffset
      (http_get ''/bot123/getMe'') (HandleOffsetTestCase, new_response)) =
     Throws CheckFailedException"
    by code_simp
  have p: "fst (seq [ExpectURI (http_get ''/bot123/getMe'') ''/bot123/getMe'',
             ExpectMethod (http_get ''/bot123/getMe'') ''GET'']
          (SingleGetMeTestCase, new_response)) = Returns ()"
    by code_simp
  have z: "Fulfilled HandleOffsetTestCase = 0" "Fulfilled SingleGetMeTestCase = 0"
    by (simp_all add: HandleOffsetTestCase_def SingleGetMeTestCase_def)
  from counter_advances_per_variant
    [of sample_FakeData "http_get ''/bot123/getMe''" HandleOffsetTestCase new_response]
    counter_advances_per_variant
    [of sample_FakeData "http_get ''/bot123/getMe''" SingleGetMeTestCase new_response] e p z
  show ?thesis by simp
qed

text \<open>
  The claim as stated fails on \<open>SingleGetMeTestCase\<close>: a request for another path is
  rejected by \<open>ExpectURI\<close> before \<open>Fulfilled++\<close> is reached, and the counter stays 0.
\<close>

theorem counter_not_advanced_counterexample:
  "Fulfilled SingleGetMeTestCase = 0 \<and>
   HandleRequest sample_FakeData SingleGetMe (http_get ''/bot123/getUpdates'')
     (SingleGetMeTestCase, new_response) =
     (Throws CheckFailedException,
      (SingleGetMeTestCase
         \<lparr>Fails := [''Invalid Path: expected /bot123/getMe, got /bot123/getUpdates'']\<rparr>,
       new_response)) \<and>
   Fulfilled (fst (snd (HandleRequest sample_FakeData SingleGetMe (http_get ''/bot123/getUpdates'')
     (SingleGetMeTestCase, new_response)))) \<noteq> Fulfilled SingleGetMeTestCase + 1"
  by code_simp

subsection \<open>\<open>ExpectURI\<close> and \<open>ExpectMethod\<close> in closed form\<close>

lemma sort_eq_iff_mset: "(sort xs = sort ys) = (mset xs = mset ys)"
proof
  assume "sort xs = sort ys"
  then have "mset (sort xs) = mset (sort ys)" by simp
  then show "mset xs = mset ys" by simp
next
  assume "mset xs = mset ys"
  then have "mset (sort ys) = mset xs" by simp
  then show "sort xs = sort ys"
    by (rule properties_for_sort) simp
qed

lemma ExpectURI_eq:
  assumes "parse_URI (getURI request) = Inr a" and "getQueryParameters a = Inr q"
    and "parse_URI uri = Inr c" and "getQueryParameters c = Inr p"
  shows "ExpectURI request uri (t, r) =
     (if getHost a \<noteq> getHost c
      then (Throws CheckFailedException,
            (t\<lparr>Fails := Fails t @
               [''Invalid Host: expected '' @ getHost c @ '', got '' @ getHost a]\<rparr>, r))
      else if getPath a \<noteq> getPath c
      then (Throws CheckFailedException,
            (t\<lparr>Fails := Fails t @
               [''Invalid Path: expected '' @ getPath c @ '', got '' @ getPath a]\<rparr>, r))
      else if mset q \<noteq> mset p
      then (Throws CheckFailedException, (t\<lparr>Fails := Fails t @ [''Invalid Query params'']\<rparr>, r))
      else (Returns (), (t, r)))"
  using assms
  by (simp add: ExpectURI_def and_then_def call_def Let_def Fail_def return_def
      sort_eq_iff_mset)

lemma ExpectMethod_eq:
  "ExpectMethod request method (t, r) =
     (if getMethod request \<noteq> method
      then (Throws CheckFailedException,
            (t\<lparr>Fails := Fails t @
               [''Invalid method: expected '' @ method @ '', got '' @ getMethod request]\<rparr>, r))
      else (Returns (), (t, r)))"
  by (simp add: ExpectMethod_def Fail_def return_def)

text \<open>
  C4. Two requests and two expected URIs that parse to the same host and path and to
  the same query pairs up to their order (as multisets: a repeated pair counts as often
  as it occurs) are treated alike by \<open>ExpectURI\<close>: same outcome, same state, and so the
  same recorded failure.
\<close>

theorem ExpectURI_query_order_irrelevant:
  assumes "parse_URI (getURI request) = Inr a" and "getQueryParameters a = Inr q"
    and "parse_URI (getURI request') = Inr a'" and "getQueryParameters a' = Inr q'"
    and "getHost a' = getHost a" and "getPath a' = getPath a" and "mset q' = mset q"
    and "parse_URI uri = Inr c" and "getQueryParameters c = Inr p"
    and "parse_URI uri' = Inr c'" and "getQueryParameters c' = Inr p'"
    and "getHost c' = getHost c" and "getPath c' = getPath c" and "mset p' = mset p"
  shows "ExpectURI request' uri' s = ExpectURI request uri s"
proof (cases s)
  case (Pair t r)
  show ?thesis
    unfolding Pair
      ExpectURI_eq [OF assms(1) assms(2) assms(8) assms(9)]
      ExpectURI_eq [OF assms(3) assms(4) assms(10) assms(11)]
    by (simp only: assms(5-7) assms(12-14))
qed

lemma parse_getMe_xy:
  "parse_URI ''/bot123/getMe?x=1&y=2'' =
     Inr \<lparr>getHost = [], getPath = ''/bot123/getMe'', getRawQuery = ''x=1&y=2''\<rparr>"
  "parse_URI ''/bot123/getMe?y=2&x=1'' =
     Inr \<lparr>getHost = [], getPath = ''/bot123/getMe'', getRawQuery = ''y=2&x=1''\<rparr>"
  "getQueryParameters \<lparr>getHost = [], getPath = ''/bot123/getMe'', getRawQuery = ''x=1&y=2''\<rparr> =
     Inr [(''x'', ''1''), (''y'', ''2'')]"
  "getQueryParameters \<lparr>getHost = [], getPath = ''/bot123/getMe'', getRawQuery = ''y=2&x=1''\<rparr> =
     Inr [(''y'', ''2''), (''x'', ''1'')]"
  by code_simp+

theorem ExpectURI_query_order_irrelevant_witness:
  "mset [(''y'', ''2''), (''x'', ''1'')] = mset [(''x'', ''1''), (''y'', ''2'')] \<and>
   ExpectURI (http_get ''/bot123/getMe?y=2&x=1'') ''/bot123/getMe?x=1&y=2''
     (SingleGetMeTestCase, new_response) =
   ExpectURI (http_get ''/bot123/getMe?x=1&y=2'') ''/bot123/getMe?y=2&x=1''
     (SingleGetMeTestCase, new_response) \<and>
   ExpectURI (http_get ''/bot123/getMe?x=1&y=2'') ''/bot123/getMe?y=2&x=1''
     (SingleGetMeTestCase, new_response) = (Returns (), (SingleGetMeTestCase, new_response))"
proof -
  have m: "mset [(''y'', ''2''), (''x'', ''1'')] = mset [(''x'', ''1''), (''y'', ''2'')]"
    by (simp add: add.commute)
  have g: "getURI (http_get ''/bot123/getMe?x=1&y=2'') = ''/bot123/getMe?x=1&y=2''"
    "getURI (http_get ''/bot123/getMe?y=2&x=1'') = ''/bot123/getMe?y=2&x=1''"
    by (simp_all add: http_get_def)
  have v: "ExpectURI (http_get ''/bot123/getMe?x=1&y=2'') ''/bot123/getMe?y=2&x=1''
     (SingleGetMeTestCase, new_response) = (Returns (), (SingleGetMeTestCase, new_response))"
    by code_simp
  have "ExpectURI (http_get ''/bot123/getMe?y=2&x=1'') ''/bot123/getMe?x=1&y=2''
     (SingleGetMeTestCase, new_response) =
   ExpectURI (http_get ''/bot123/getMe?x=1&y=2'') ''/bot123/getMe?y=2&x=1''
     (SingleGetMeTestCase, new_response)"
    by (rule ExpectURI_query_order_irrelevant
        [where a = "\<lparr>getHost = [], getPath = ''/bot123/getMe'', getRawQuery = ''x=1&y=2''\<rparr>"
           and a' = "\<lparr>getHost = [], getPath = ''/bot123/getMe'', getRawQuery = ''y=2&x=1''\<rparr>"
           and c = "\<lparr>getHost = [], getPath = ''/bot123/getMe'', getRawQuery = ''y=2&x=1''\<rparr>"
           and c' = "\<lparr>getHost = [], getPath = ''/bot123/getMe'', getRawQuery = ''x=1&y=2''\<rparr>"
           and q = "[(''x'', ''1''), (''y'', ''2'')]" and q' = "[(''y'', ''2''), (''x'', ''1'')]"
           and p = "[(''y'', ''2''), (''x'', ''1'')]" and p' = "[(''x'', ''1''), (''y'', ''2'')]"])
       (simp_all add: g parse_getMe_xy m m [symmetric])
  with m v show ?thesis by simp
qed

text \<open>
  C9, as the code has it. The message of a host, path or method mismatch is built from
  the expected and the actual value and contains both; the message of a query mismatch
  is the fixed text "Invalid Query params", whatever the parameters were.
\<close>

theorem mismatch_messages:
  assumes "parse_URI (getURI request) = Inr a" and "getQueryParameters a = Inr q"
    and "parse_URI uri = Inr c" and "getQueryParameters c = Inr p"
  shows
    "(getHost a \<noteq> getHost c \<longrightarrow>
        ExpectURI request uri (t, r) =
          (Throws CheckFailedException,
           (t\<lparr>Fails := Fails t @
              [''Invalid Host: expected '' @ getHost c @ '', got '' @ getHost a]\<rparr>, r)) \<and>
        sublist (getHost c) (''Invalid Host: expected '' @ getHost c @ '', got '' @ getHost a) \<and>
        sublist (getHost a) (''Invalid Host: expected '' @ getHost c @ '', got '' @ getHost a)) \<and>
     (getHost a = getHost c \<and> getPath a \<noteq> getPath c \<longrightarrow>
        ExpectURI request uri (t, r) =
          (Throws CheckFailedException,
           (t\<lparr>Fails := Fails t @
              [''Invalid Path: expected '' @ getPath c @ '', got '' @ getPath a]\<rparr>, r)) \<and>
        sublist (getPath c) (''Invalid Path: expected '' @ getPath c @ '', got '' @ getPath a) \<and>
        sublist (getPath a) (''Invalid Path: expected '' @ getPath c @ '', got '' @ getPath a)) \<and>
     (getHost a = getHost c \<and> getPath a = getPath c \<and> mset q \<noteq> mset p \<longrightarrow>
        ExpectURI request uri (t, r) =
          (Throws CheckFailedException,
           (t\<lparr>Fails := Fails t @ [''Invalid Query params'']\<rparr>, r))) \<and>
     (getMethod request \<noteq> method \<longrightarrow>
        ExpectMethod request method (t, r) =
          (Throws CheckFailedException,
           (t\<lparr>Fails := Fails t @
              [''Invalid method: expected '' @ method @ '', got '' @ getMethod request]\<rparr>, r)) \<and>
        sublist method (''Invalid method: expected '' @ method @ '', got '' @ getMethod request) \<and>
        sublist (getMethod request)
          (''Invalid method: expected '' @ method @ '', got '' @ getMethod request))"
proof -
  have s1: "sublist x (u @ x @ v @ y)" for x y u v :: string
    by (rule sublist_appendI)
  have s2: "sublist y (u @ x @ v @ y)" for x y u v :: string
    using sublist_append_leftI [of y "u @ x @ v"] by simp
  have h: "getHost a \<noteq> getHost c \<Longrightarrow>
        ExpectURI request uri (t, r) =
          (Throws CheckFailedException,
           (t\<lparr>Fails := Fails t @
              [''Invalid Host: expected '' @ getHost c @ '', got '' @ getHost a]\<rparr>, r))"
    by (simp add: ExpectURI_eq [OF assms])
  have p: "getHost a = getHost c \<and> getPath a \<noteq> getPath c \<Longrightarrow>
        ExpectURI request uri (t, r) =
          (Throws CheckFailedException,
           (t\<lparr>Fails := Fails t @
              [''Invalid Path: expected '' @ getPath c @ '', got '' @ getPath a]\<rparr>, r))"
    by (simp add: ExpectURI_eq [OF assms])
  have q: "getHost a = getHost c \<and> getPath a = getPath c \<and> mset q \<noteq> mset p \<Longrightarrow>
        ExpectURI request uri (t, r) =
          (Throws CheckFailedException,
           (t\<lparr>Fails := Fails t @ [''Invalid Query params'']\<rparr>, r))"
    by (simp add: ExpectURI_eq [OF assms])
  have m: "getMethod request \<noteq> method \<Longrightarrow>
        ExpectMethod request method (t, r) =
          (Throws CheckFailedException,
           (t\<lparr>Fails := Fails t @
              [''Invalid method: expected '' @ method @ '', got '' @ getMethod request]\<rparr>, r))"
    by (simp add: ExpectMethod_eq)
  from h p q m s1 s2 show ?thesis by blast
qed

lemma parse_getUpdates_offsets:
  "parse_URI ''/bot123/getUpdates?offset=7&timeout=5'' =
     Inr \<lparr>getHost = [], getPath = ''/bot123/getUpdates'', getRawQuery = ''offset=7&timeout=5''\<rparr>"
  "getQueryParameters
     \<lparr>getHost = [], getPath = ''/bot123/getUpdates'', getRawQuery = ''offset=7&timeout=5''\<rparr> =
     Inr [(''offset'', ''7''), (''timeout'', ''5'')]"
  "parse_URI ''/bot123/getUpdates?offset=851793508&timeout=5'' =
     Inr \<lparr>getHost = [], getPath = ''/bot123/getUpdates'',
          getRawQuery = ''offset=851793508&timeout=5''\<rparr>"
  "getQueryParameters
     \<lparr>getHost = [], getPath = ''/bot123/getUpdates'',
      getRawQuery = ''offset=851793508&timeout=5''\<rparr> =
     Inr [(''offset'', ''851793508''), (''timeout'', ''5'')]"
  by code_simp+

theorem mismatch_messages_witness:
  "ExpectURI (http_get ''/bot123/getUpdates?offset=7&timeout=5'')
     ''/bot123/getUpdates?offset=851793508&timeout=5'' (HandleOffsetTestCase, new_response) =
     (Throws CheckFailedException,
      (HandleOffsetTestCase\<lparr>Fails := [''Invalid Query params'']\<rparr>, new_response)) \<and>
   ExpectMethod (http_get ''/bot123/getUpdates?offset=7&timeout=5'') ''POST''
     (HandleOffsetTestCase, new_response) =
     (Throws CheckFailedException,
      (HandleOffsetTestCase\<lparr>Fails := [''Invalid method: expected POST, got GET'']\<rparr>,
       new_response)) \<and>
   sublist ''POST'' ''Invalid method: expected POST, got GET'' \<and>
   sublist ''GET'' ''Invalid method: expected POST, got GET''"
proof -
  have g: "getURI (http_get ''/bot123/getUpdates?offset=7&timeout=5'') =
      ''/bot123/getUpdates?offset=7&timeout=5''"
    "getMethod (http_get ''/bot123/getUpdates?offset=7&timeout=5'') = ''GET''"
    by (simp_all add: http_get_def)
  have m: "mset [(''offset'', ''7''), (''timeout'', ''5'')] \<noteq>
           mset [(''offset'', ''851793508''), (''timeout'', ''5'')]"
    by simp
  have f: "Fails HandleOffsetTestCase = []" by (simp add: HandleOffsetTestCase_def)
  from mismatch_messages
    [of "http_get ''/bot123/getUpdates?offset=7&timeout=5''"
        "\<lparr>getHost = [], getPath = ''/bot123/getUpdates'', getRawQuery = ''offset=7&timeout=5''\<rparr>"
        "[(''offset'', ''7''), (''timeout'', ''5'')]"
        "''/bot123/getUpdates?offset=851793508&timeout=5''"
        "\<lparr>getHost = [], getPath = ''/bot123/getUpdates'',
          getRawQuery = ''offset=851793508&timeout=5''\<rparr>"
        "[(''offset'', ''851793508''), (''timeout'', ''5'')]"
        HandleOffsetTestCase new_response "''POST''"]
    m f
  show ?thesis
    by (simp add: g parse_getUpdates_offsets)
qed

text \<open>
  The claim as stated fails for the query parameters: the request asks for offset 7
  where offset 851793508 is expected, and the recorded message contains neither query
  string and neither offset.
\<close>

theorem query_mismatch_message_counterexample:
  "ExpectURI (http_get ''/bot123/getUpdates?offset=7&timeout=5'')
     ''/bot123/getUpdates?offset=851793508&timeout=5'' (HandleOffsetTestCase, new_response) =
     (Throws CheckFailedException,
      (HandleOffsetTestCase\<lparr>Fails := [''Invalid Query params'']\<rparr>, new_response)) \<and>
   \<not> sublist ''offset=851793508&timeout=5'' ''Invalid Query params'' \<and>
   \<not> sublist ''offset=7&timeout=5'' ''Invalid Query params'' \<and>
   \<not> sublist ''851793508'' ''Invalid Query params'' \<and>
   \<not> sublist ''7'' ''Invalid Query params''"
  by code_simp

subsection \<open>The scenarios\<close>

lemma parse_getMe:
  "parse_URI ''/bot123/getMe'' = Inr \<lparr>getHost = [], getPath = ''/bot123/getMe'', getRawQuery = []\<rparr>"
  "getQueryParameters \<lparr>getHost = [], getPath = ''/bot123/getMe'', getRawQuery = []\<rparr> = Inr []"
  by code_simp+

lemma ExpectURI_same:
  assumes "getURI request = uri" and "parse_URI uri = Inr c" and "getQueryParameters c = Inr p"
  shows "ExpectURI request uri (t, r) = (Returns (), (t, r))"
  using ExpectURI_eq [of request c p uri c p t r] assms by simp

text \<open>
  C7. The name "Single getMe" selects \<open>SingleGetMeTestCase\<close>. Its first request
  \<open>GET /bot123/getMe\<close> is answered with status 200 and the body \<open>GetMeJson\<close>; a
  second such request records "Unexpected extra request" and is answered with status 400
  and an empty body; \<open>Check\<close> then throws, and its report is the line of that failure.
\<close>

theorem single_getMe_scenario:
  assumes "getURI request1 = ''/bot123/getMe''" and "getMethod request1 = ''GET''"
    and "getURI request2 = ''/bot123/getMe''" and "getMethod request2 = ''GET''"
  shows
    "FakeServer ''Single getMe'' = Inr SingleGetMe \<and>
     serve fd SingleGetMe request1 (new_TestCase SingleGetMe) =
       (Returns (), SingleGetMeTestCase\<lparr>Fulfilled := 1\<rparr>,
        \<lparr>getStatus = HTTP_OK, sent = True, body = GetMeJson fd\<rparr>) \<and>
     serve fd SingleGetMe request2 (SingleGetMeTestCase\<lparr>Fulfilled := 1\<rparr>) =
       (Returns (),
        SingleGetMeTestCase\<lparr>Fulfilled := 2, Fails := [''Unexpected extra request'']\<rparr>,
        \<lparr>getStatus = HTTP_BAD_REQUEST, sent = True, body = []\<rparr>) \<and>
     Check (serve_all fd SingleGetMe [request1, request2] (new_TestCase SingleGetMe)) =
       Throws (runtime_error (error_line ''Unexpected extra request''))"
proof -
  have u1: "ExpectURI request1 ''/bot123/getMe'' (t, r) = (Returns (), (t, r))" for t r
    using assms(1) parse_getMe by (rule ExpectURI_same)
  have u2: "ExpectURI request2 ''/bot123/getMe'' (t, r) = (Returns (), (t, r))" for t r
    using assms(3) parse_getMe by (rule ExpectURI_same)
  have m1: "ExpectMethod request1 ''GET'' (t, r) = (Returns (), (t, r))" for t r
    by (simp add: ExpectMethod_eq assms(2))
  have m2: "ExpectMethod request2 ''GET'' (t, r) = (Returns (), (t, r))" for t r
    by (simp add: ExpectMethod_eq assms(4))
  have a: "FakeServer ''Single getMe'' = Inr SingleGetMe"
    by (simp add: FakeServer_def)
  have b: "serve fd SingleGetMe request1 (new_TestCase SingleGetMe) =
       (Returns (), SingleGetMeTestCase\<lparr>Fulfilled := 1\<rparr>,
        \<lparr>getStatus = HTTP_OK, sent = True, body = GetMeJson fd\<rparr>)"
    by (simp add: serve_def handleRequest_def SingleGetMe_HandleRequest_def u1 m1
        increment_Fulfilled_def setStatus_def send_def new_response_def SingleGetMeTestCase_def)
  have c: "serve fd SingleGetMe request2 (SingleGetMeTestCase\<lparr>Fulfilled := 1\<rparr>) =
       (Returns (),
        SingleGetMeTestCase\<lparr>Fulfilled := 2, Fails := [''Unexpected extra request'']\<rparr>,
        \<lparr>getStatus = HTTP_BAD_REQUEST, sent = True, body = []\<rparr>)"
    by (simp add: serve_def handleRequest_def SingleGetMe_HandleRequest_def u2 m2
        increment_Fulfilled_def setStatus_def send_def Fail_def new_response_def
        SingleGetMeTestCase_def)
  have d: "Check (SingleGetMeTestCase\<lparr>Fulfilled := 2, Fails := [''Unexpected extra request'']\<rparr>) =
       Throws (runtime_error (error_line ''Unexpected extra request''))"
    by (simp add: Check_eq size_t_of_int_def SingleGetMeTestCase_def)
  have "Check (serve_all fd SingleGetMe [request1, request2] (new_TestCase SingleGetMe)) =
       Throws (runtime_error (error_line ''Unexpected extra request''))"
    using b c d by simp
  with a b c show ?thesis by (intro conjI)
qed

theorem single_getMe_scenario_witness:
  "getURI (http_get ''/bot123/getMe'') = ''/bot123/getMe'' \<and>
   getMethod (http_get ''/bot123/getMe'') = ''GET'' \<and>
   serve sample_FakeData SingleGetMe (http_get ''/bot123/getMe'') (new_TestCase SingleGetMe) =
     (Returns (), SingleGetMeTestCase\<lparr>Fulfilled := 1\<rparr>,
      \<lparr>getStatus = HTTP_OK, sent = True, body = GetMeJson sample_FakeData\<rparr>) \<and>
   serve sample_FakeData SingleGetMe (http_get ''/bot123/getMe'')
       (SingleGetMeTestCase\<lparr>Fulfilled := 1\<rparr>) =
     (Returns (),
      SingleGetMeTestCase\<lparr>Fulfilled := 2, Fails := [''Unexpected extra request'']\<rparr>,
      \<lparr>getStatus = HTTP_BAD_REQUEST, sent = True, body = []\<rparr>) \<and>
   Check (serve_all sample_FakeData SingleGetMe
       [http_get ''/bot123/getMe'', http_get ''/bot123/getMe''] (new_TestCase SingleGetMe)) =
     Throws (runtime_error (error_line ''Unexpected extra request''))"
proof -
  have g: "getURI (http_get ''/bot123/getMe'') = ''/bot123/getMe''"
    "getMethod (http_get ''/bot123/getMe'') = ''GET''"
    by (simp_all add: http_get_def)
  from single_getMe_scenario [OF g g, of sample_FakeData] g
  show ?thesis by blast
qed

lemma exchange_serve:
  assumes H: "HandleRequest fd var request (t, new_response) =
      seq [ExpectURI request uri, ExpectMethod request ''GET'', setStatus HTTP_OK, send b]
        (t1, new_response)"
    and c: "parse_URI uri = Inr c" "getQueryParameters c = Inr p" "getHost c = []"
  shows "(is_GET request (getPath c) p \<longrightarrow>
            serve fd var request t =
              (Returns (), t1, \<lparr>getStatus = HTTP_OK, sent = True, body = b\<rparr>)) \<and>
         (\<not> is_GET request (getPath c) p \<longrightarrow>
            (\<exists>m. Fails (fst (snd (serve fd var request t))) = Fails t1 @ [m]))"
proof (cases "parse_URI (getURI request)")
  case (Inl e)
  then have "ExpectURI request uri (t1, new_response) = (Throws URISyntaxException, (t1, new_response))"
    using parse_URI_Inl [OF Inl] by (simp add: ExpectURI_def and_then_def call_def)
  then show ?thesis
    using Inl
    by (simp add: serve_def handleRequest_def H is_GET_def URISyntaxException_def Fail_def)
next
  case (Inr a)
  note a = this
  show ?thesis
  proof (cases "getQueryParameters a")
    case (Inl e)
    then have "ExpectURI request uri (t1, new_response) =
        (Throws URISyntaxException, (t1, new_response))"
      using getQueryParameters_Inl [OF Inl] a by (simp add: ExpectURI_def and_then_def call_def)
    then show ?thesis
      using Inl a
      by (simp add: serve_def handleRequest_def H is_GET_def URISyntaxException_def Fail_def)
  next
    case (Inr q)
    show ?thesis
      unfolding serve_def handleRequest_def H
      using a Inr c(3)
      by (auto simp: is_GET_def ExpectURI_eq [OF a Inr c(1) c(2)]
          ExpectMethod_eq setStatus_def send_def Fail_def new_response_def)
  qed
qed

lemma parse_getUpdates:
  "parse_URI ''/bot123/getUpdates?timeout=5'' =
     Inr \<lparr>getHost = [], getPath = ''/bot123/getUpdates'', getRawQuery = ''timeout=5''\<rparr>"
  "getQueryParameters
     \<lparr>getHost = [], getPath = ''/bot123/getUpdates'', getRawQuery = ''timeout=5''\<rparr> =
     Inr [(''timeout'', ''5'')]"
  by code_simp+

text \<open>
  C8. The name "Handle getUpdates offset" selects \<open>HandleOffsetTestCase\<close>. Its first
  request is answered with status 200 and \<open>GetUpdatesTwoMessages\<close> if it is a \<open>GET\<close>
  of \<open>/bot123/getUpdates\<close> with the one parameter \<open>timeout=5\<close>; the second and the
  third are answered with \<open>GetUpdatesZeroMessages\<close> and \<open>GetupdatesOneMessage\<close> if they
  are a \<open>GET\<close> of that path with the parameters \<open>offset=851793508\<close> and \<open>timeout=5\<close>,
  in either order. A request that is not of that form (a wrong or missing offset, for
  one) records a failure. After three requests of the right form, \<open>Check\<close> returns.
\<close>

theorem pagination_scenario:
  "FakeServer ''Handle getUpdates offset'' = Inr HandleOffset \<and>
   (is_GET r1 ''/bot123/getUpdates'' [(''timeout'', ''5'')] \<longrightarrow>
      serve fd HandleOffset r1 (new_TestCase HandleOffset) =
        (Returns (), HandleOffsetTestCase\<lparr>Fulfilled := 1\<rparr>,
         \<lparr>getStatus = HTTP_OK, sent = True, body = GetUpdatesTwoMessages fd\<rparr>)) \<and>
   (\<not> is_GET r1 ''/bot123/getUpdates'' [(''timeout'', ''5'')] \<longrightarrow>
      (\<exists>m. Fails (fst (snd (serve fd HandleOffset r1 (new_TestCase HandleOffset)))) = [m])) \<and>
   (is_GET r2 ''/bot123/getUpdates'' [(''offset'', ''851793508''), (''timeout'', ''5'')] \<longrightarrow>
      serve fd HandleOffset r2 (HandleOffsetTestCase\<lparr>Fulfilled := 1\<rparr>) =
        (Returns (), HandleOffsetTestCase\<lparr>Fulfilled := 2\<rparr>,
         \<lparr>getStatus = HTTP_OK, sent = True, body = GetUpdatesZeroMessages fd\<rparr>)) \<and>
   (\<not> is_GET r2 ''/bot123/getUpdates'' [(''offset'', ''851793508''), (''timeout'', ''5'')] \<longrightarrow>
      (\<exists>m. Fails (fst (snd (serve fd HandleOffset r2
              (HandleOffsetTestCase\<lparr>Fulfilled := 1\<rparr>)))) = [m])) \<and>
   (is_GET r3 ''/bot123/getUpdates'' [(''offset'', ''851793508''), (''timeout'', ''5'')] \<longrightarrow>
      serve fd HandleOffset r3 (HandleOffsetTestCase\<lparr>Fulfilled := 2\<rparr>) =
        (Returns (), HandleOffsetTestCase\<lparr>Fulfilled := 3\<rparr>,
         \<lparr>getStatus = HTTP_OK, sent = True, body = GetupdatesOneMessage fd\<rparr>)) \<and>
   (\<not> is_GET r3 ''/bot123/getUpdates'' [(''offset'', ''851793508''), (''timeout'', ''5'')] \<longrightarrow>
      (\<exists>m. Fails (fst (snd (serve fd HandleOffset r3
              (HandleOffsetTestCase\<lparr>Fulfilled := 2\<rparr>)))) = [m])) \<and>
   (is_GET r1 ''/bot123/getUpdates'' [(''timeout'', ''5'')] \<and>
    is_GET r2 ''/bot123/getUpdates'' [(''offset'', ''851793508''), (''timeout'', ''5'')] \<and>
    is_GET r3 ''/bot123/getUpdates'' [(''offset'', ''851793508''), (''timeout'', ''5'')] \<longrightarrow>
      Check (serve_all fd HandleOffset [r1, r2, r3] (new_TestCase HandleOffset)) = Returns ())"
proof -
  let ?T0 = "HandleOffsetTestCase"
  let ?T1 = "HandleOffsetTestCase\<lparr>Fulfilled := 1\<rparr>"
  let ?T2 = "HandleOffsetTestCase\<lparr>Fulfilled := 2\<rparr>"
  let ?T3 = "HandleOffsetTestCase\<lparr>Fulfilled := 3\<rparr>"
  have f: "Fails ?T1 = []" "Fails ?T2 = []" "Fails ?T3 = []"
    by (simp_all add: HandleOffsetTestCase_def)
  have H1: "HandleRequest fd HandleOffset r1 (?T0, new_response) =
      seq [ExpectURI r1 ''/bot123/getUpdates?timeout=5'', ExpectMethod r1 ''GET'',
           setStatus HTTP_OK, send (GetUpdatesTwoMessages fd)] (?T1, new_response)"
    by (simp add: HandleOffset_dispatch HandleOffsetTestCase_def del: seq.simps)
  have H2: "HandleRequest fd HandleOffset r2 (?T1, new_response) =
      seq [ExpectURI r2 ''/bot123/getUpdates?offset=851793508&timeout=5'', ExpectMethod r2 ''GET'',
           setStatus HTTP_OK, send (GetUpdatesZeroMessages fd)] (?T2, new_response)"
    by (simp add: HandleOffset_dispatch HandleOffsetTestCase_def del: seq.simps)
  have H3: "HandleRequest fd HandleOffset r3 (?T2, new_response) =
      seq [ExpectURI r3 ''/bot123/getUpdates?offset=851793508&timeout=5'', ExpectMethod r3 ''GET'',
           setStatus HTTP_OK, send (GetupdatesOneMessage fd)] (?T3, new_response)"
    by (simp add: HandleOffset_dispatch HandleOffsetTestCase_def del: seq.simps)
  note s1 = exchange_serve [OF H1 parse_getUpdates, simplified f URI.simps append_Nil]
  note s2 = exchange_serve [OF H2 parse_getUpdates_offsets(3,4), simplified f URI.simps append_Nil]
  note s3 = exchange_serve [OF H3 parse_getUpdates_offsets(3,4), simplified f URI.simps append_Nil]
  have a: "FakeServer ''Handle getUpdates offset'' = Inr HandleOffset"
    by (simp add: FakeServer_def)
  have c: "Check ?T3 = Returns ()"
    by (simp add: Check_eq size_t_of_int_def HandleOffsetTestCase_def)
  have d: "is_GET r1 ''/bot123/getUpdates'' [(''timeout'', ''5'')] \<and>
    is_GET r2 ''/bot123/getUpdates'' [(''offset'', ''851793508''), (''timeout'', ''5'')] \<and>
    is_GET r3 ''/bot123/getUpdates'' [(''offset'', ''851793508''), (''timeout'', ''5'')] \<longrightarrow>
      Check (serve_all fd HandleOffset [r1, r2, r3] (new_TestCase HandleOffset)) = Returns ()"
    using s1 s2 s3 c by simp
  from a s1 s2 s3 d show ?thesis
    unfolding new_TestCase.simps by blast
qed

theorem pagination_scenario_witness:
  "is_GET (http_get ''/bot123/getUpdates?timeout=5'') ''/bot123/getUpdates'' [(''timeout'', ''5'')] \<and>
   is_GET (http_get ''/bot123/getUpdates?timeout=5&offset=851793508'') ''/bot123/getUpdates''
     [(''offset'', ''851793508''), (''timeout'', ''5'')] \<and>
   is_GET (http_get ''/bot123/getUpdates?offset=851793508&timeout=5'') ''/bot123/getUpdates''
     [(''offset'', ''851793508''), (''timeout'', ''5'')] \<and>
   serve sample_FakeData HandleOffset (http_get ''/bot123/getUpdates?timeout=5&offset=851793508'')
       (HandleOffsetTestCase\<lparr>Fulfilled := 1\<rparr>) =
     (Returns (), HandleOffsetTestCase\<lparr>Fulfilled := 2\<rparr>,
      \<lparr>getStatus = HTTP_OK, sent = True, body = GetUpdatesZeroMessages sample_FakeData\<rparr>) \<and>
   Check (serve_all sample_FakeData HandleOffset
      [http_get ''/bot123/getUpdates?timeout=5'',
       http_get ''/bot123/getUpdates?timeout=5&offset=851793508'',
       http_get ''/bot123/getUpdates?offset=851793508&timeout=5'']
      (new_TestCase HandleOffset)) = Returns () \<and>
   \<not> is_GET (http_get ''/bot123/getUpdates?timeout=5'') ''/bot123/getUpdates''
     [(''offset'', ''851793508''), (''timeout'', ''5'')] \<and>
   (\<exists>m. Fails (fst (snd (serve sample_FakeData HandleOffset
       (http_get ''/bot123/getUpdates?timeout=5'')
       (HandleOffsetTestCase\<lparr>Fulfilled := 1\<rparr>)))) = [m])"
proof -
  have g1: "is_GET (http_get ''/bot123/getUpdates?timeout=5'') ''/bot123/getUpdates''
      [(''timeout'', ''5'')]"
    by (simp add: is_GET_def http_get_def parse_getUpdates)
  have p: "parse_URI ''/bot123/getUpdates?timeout=5&offset=851793508'' =
      Inr \<lparr>getHost = [], getPath = ''/bot123/getUpdates'',
           getRawQuery = ''timeout=5&offset=851793508''\<rparr>"
    "getQueryParameters \<lparr>getHost = [], getPath = ''/bot123/getUpdates'',
           getRawQuery = ''timeout=5&offset=851793508''\<rparr> =
      Inr [(''timeout'', ''5''), (''offset'', ''851793508'')]"
    by code_simp+
  have g2: "is_GET (http_get ''/bot123/getUpdates?timeout=5&offset=851793508'')
      ''/bot123/getUpdates'' [(''offset'', ''851793508''), (''timeout'', ''5'')]"
    by (simp add: is_GET_def http_get_def p add.commute)
  have g3: "is_GET (http_get ''/bot123/getUpdates?offset=851793508&timeout=5'')
      ''/bot123/getUpdates'' [(''offset'', ''851793508''), (''timeout'', ''5'')]"
    by (simp add: is_GET_def http_get_def parse_getUpdates_offsets)
  have b: "\<not> is_GET (http_get ''/bot123/getUpdates?timeout=5'') ''/bot123/getUpdates''
      [(''offset'', ''851793508''), (''timeout'', ''5'')]"
    by (simp add: is_GET_def http_get_def parse_getUpdates)
  from pagination_scenario
      [of "http_get ''/bot123/getUpdates?timeout=5''" sample_FakeData
          "http_get ''/bot123/getUpdates?timeout=5&offset=851793508''"
          "http_get ''/bot123/getUpdates?offset=851793508&timeout=5''"]
    pagination_scenario
      [of "http_get ''/bot123/getUpdates?timeout=5''" sample_FakeData
          "http_get ''/bot123/getUpdates?timeout=5''"
          "http_get ''/bot123/getUpdates?offset=851793508&timeout=5''"]
    g1 g2 g3 b
  show ?thesis by blast
qed

subsection \<open>The counter is not negative\<close>

lemma serve_Fulfilled:
  "Fulfilled (fst (snd (serve fd var request t))) = Fulfilled t \<or>
   Fulfilled (fst (snd (serve fd var request t))) = Fulfilled t + 1"
proof -
  obtain v F' st b where F: "F' = Fulfilled t \<or> F' = Fulfilled t + 1"
    and h: "handleRequest fd var request (t, new_response) =
       (case v of
          Pass \<Rightarrow>
            (Returns (), (t\<lparr>Fulfilled := F'\<rparr>,
                          new_response\<lparr>getStatus := st, sent := True, body := body new_response @ b\<rparr>))
        | Failed m \<Rightarrow>
            (Returns (), (t\<lparr>Fulfilled := F', Fails := Fails t @ [m]\<rparr>,
                          new_response\<lparr>getStatus := HTTP_BAD_REQUEST, sent := True\<rparr>))
        | Raised m \<Rightarrow>
            (Throws CheckFailedException, (t\<lparr>Fulfilled := F', Fails := Fails t @ [m]\<rparr>, new_response)))"
    using handleRequest_effect [of t var fd request new_response] by blast
  have "Fulfilled (fst (snd (serve fd var request t))) = F'"
    by (cases v) (simp_all add: serve_def h)
  with F show ?thesis by simp
qed

lemma uint_increment: "uint (n + 1) \<le> uint n + 1" for n :: int32
  by (simp add: uint_plus_if')

lemma serve_all_Fulfilled_bound:
  "uint (Fulfilled (serve_all fd var requests t)) \<le> uint (Fulfilled t) + int (length requests)"
proof (induction requests arbitrary: t)
  case Nil
  show ?case by simp
next
  case (Cons request requests)
  let ?t = "fst (snd (serve fd var request t))"
  have "uint (Fulfilled ?t) \<le> uint (Fulfilled t) + 1"
    using serve_Fulfilled [of fd var request t] uint_increment [of "Fulfilled t"] by auto
  with Cons.IH [of ?t] show ?case by simp
qed

lemma sint_small: "uint n < 2 ^ 31 \<Longrightarrow> 0 \<le> sint n" for n :: int32
proof -
  assume a: "uint n < 2 ^ 31"
  have "- (2 ^ 31) \<le> uint n" by (rule order_trans [of _ 0]) simp_all
  then have "signed_take_bit 31 (uint n) = uint n"
    using a by (rule signed_take_bit_int_eq_self)
  then show ?thesis by (simp add: sint_uint)
qed

lemma new_TestCase_Fulfilled: "Fulfilled (new_TestCase var) = 0"
  by (cases var)
     (simp_all add: SingleGetMeTestCase_def ErrorHandlingTestCase_def
        GetUpdatesAndSendMessagesTestCase_def HandleOffsetTestCase_def)

lemma Fulfilled_nonnegative:
  "int (length requests) < 2 ^ 31 \<Longrightarrow>
   0 \<le> sint (Fulfilled (serve_all fd var requests (new_TestCase var)))"
proof -
  assume a: "int (length requests) < 2 ^ 31"
  have "uint (Fulfilled (serve_all fd var requests (new_TestCase var))) \<le> int (length requests)"
    using serve_all_Fulfilled_bound [of fd var requests "new_TestCase var"]
    by (simp add: new_TestCase_Fulfilled)
  with a have "uint (Fulfilled (serve_all fd var requests (new_TestCase var))) < 2 ^ 31"
    by (rule le_less_trans [rotated])
  then show ?thesis by (rule sint_small)
qed

end
